(* ===== verification/Prelude.thy ===== *)
theory Prelude
  imports Complex_Main "HOL-Library.Word" "HOL-Library.While_Combinator"
begin

text \<open>
  Shared vocabulary of the development: the types that name the program's values,
  the JavaScript runtime primitives the sources call (\<open>String(n)\<close>,
  \<open>String.prototype.split\<close>, \<open>substring\<close>, \<open>trim\<close>, \<open>toUpperCase\<close>,
  \<open>toLowerCase\<close>, \<open>charAt\<close>), and the generic list lemmas the component proofs share.
  JavaScript strings are sequences of UTF-16 code units; the model uses Isabelle's
  \<open>string\<close> (a list of 8-bit \<open>char\<close>s) and gives the case mappings on ASCII letters
  only, which is what the sources' regular expressions test for.
  The random source \<open>Math.random()\<close> is an explicit parameter: the \<open>i\<close>-th call
  scaled to \<open>m\<close> outcomes (\<open>Math.floor(Math.random() * m)\<close>) is \<open>rng i m\<close>.
\<close>

type_synonym ms = int
type_synonym random_source = "nat \<Rightarrow> nat \<Rightarrow> nat"

abbreviation SP :: char where "SP \<equiv> CHR '' ''"

named_theorems class_simps "membership of concrete characters in the regex classes"
named_theorems js_simps "evaluation of the JavaScript string primitives"

subsection \<open>The random source\<close>

text \<open>\<open>Math.floor(Math.random() * m)\<close> is always below \<open>m\<close>.\<close>

definition rng_ok :: "random_source \<Rightarrow> bool" where
  "rng_ok rng \<longleftrightarrow> (\<forall>i m. 0 < m \<longrightarrow> rng i m < m)"

subsection \<open>Decimal rendering: \<open>String(n)\<close> and \<open>s += n\<close>\<close>

definition digit_char :: "nat \<Rightarrow> char" where
  "digit_char d = char_of (48 + d)"

fun dec_string :: "nat \<Rightarrow> string" where
  "dec_string n = (if n < 10 then [digit_char n] else dec_string (n div 10) @ [digit_char (n mod 10)])"

declare dec_string.simps [simp del]

text \<open>Reading a decimal string back (\<open>parseInt(s, 10)\<close> on digit strings): the inverse of \<open>dec_string\<close>.\<close>

definition dec_value :: "string \<Rightarrow> nat" where
  "dec_value s = foldl (\<lambda>acc c. 10 * acc + (of_char c - 48)) 0 s"

subsection \<open>Index access and substrings\<close>

text \<open>
  \<open>s.substring(a, b)\<close> clamps both indices to \<open>[0, length s]\<close> and swaps them when
  \<open>a > b\<close>; \<open>s.substring(a)\<close> is \<open>s.substring(a, length s)\<close>.
  \<open>s.charAt(0)\<close> is \<open>''''\<close> on the empty string, \<open>s.slice(1)\<close> drops one character.
\<close>

definition js_clamp :: "string \<Rightarrow> int \<Rightarrow> nat" where
  "js_clamp s i = nat (min (max i 0) (int (length s)))"

definition js_substring :: "string \<Rightarrow> int \<Rightarrow> int \<Rightarrow> string" where
  "js_substring s a b =
     (let i = js_clamp s a; j = js_clamp s b
      in take (max i j - min i j) (drop (min i j) s))"

definition js_substring_from :: "string \<Rightarrow> int \<Rightarrow> string" where
  "js_substring_from s a = js_substring s a (int (length s))"

text \<open>\<open>s.charAt(i)\<close> and \<open>s.substr(start, len)\<close> for indices that are not negative.\<close>

definition js_charAt :: "string \<Rightarrow> nat \<Rightarrow> string" where
  "js_charAt s i = (if i < length s then [s ! i] else [])"

definition js_substr :: "string \<Rightarrow> nat \<Rightarrow> nat \<Rightarrow> string" where
  "js_substr s start len = take len (drop start s)"

subsection \<open>Case mapping of ASCII letters\<close>

definition js_upper_char :: "char \<Rightarrow> char" where
  "js_upper_char c = (if 97 \<le> (of_char c :: nat) \<and> (of_char c :: nat) \<le> 122
                      then char_of ((of_char c :: nat) - 32) else c)"

definition js_lower_char :: "char \<Rightarrow> char" where
  "js_lower_char c = (if 65 \<le> (of_char c :: nat) \<and> (of_char c :: nat) \<le> 90
                      then char_of ((of_char c :: nat) + 32) else c)"

definition js_to_upper :: "string \<Rightarrow> string" where
  "js_to_upper s = map js_upper_char s"

definition js_to_lower :: "string \<Rightarrow> string" where
  "js_to_lower s = map js_lower_char s"

text \<open>\<open>s.charAt(0).toUpperCase() + s.slice(1).toLowerCase()\<close>\<close>

definition capitalize :: "string \<Rightarrow> string" where
  "capitalize s = js_to_upper (take 1 s) @ js_to_lower (drop 1 s)"

subsection \<open>\<open>s.split(c)\<close> and \<open>parts.join(c)\<close>\<close>

fun split_on :: "char \<Rightarrow> string \<Rightarrow> string list" where
  "split_on c [] = [[]]"
| "split_on c (x # xs) =
     (let r = split_on c xs in if x = c then [] # r else (x # hd r) # tl r)"

fun join_with :: "char \<Rightarrow> string list \<Rightarrow> string" where
  "join_with c [] = []"
| "join_with c [w] = w"
| "join_with c (w # ws) = w @ c # join_with c ws"

subsection \<open>\<open>s.trim()\<close>\<close>

text \<open>
  The members of ECMAScript's WhiteSpace and LineTerminator sets among 8-bit characters:
  tab, line feed, vertical tab, form feed, carriage return, space and no-break space (U+00A0).
\<close>

definition js_ws :: "char \<Rightarrow> bool" where
  "js_ws c \<longleftrightarrow> (of_char c :: nat) \<in> {9, 10, 11, 12, 13, 32, 160}"

definition js_trim :: "string \<Rightarrow> string" where
  "js_trim s = rev (dropWhile js_ws (rev (dropWhile js_ws s)))"

subsection \<open>Array indexing\<close>

text \<open>\<open>xs[i]\<close> past the end is \<open>undefined\<close>, and \<open>s += undefined\<close> appends ''undefined''.\<close>

definition js_index_str :: "string list \<Rightarrow> nat \<Rightarrow> string" where
  "js_index_str xs i = (if i < length xs then xs ! i else ''undefined'')"

subsection \<open>Padding with random digits\<close>

text \<open>
  \<open>while (password.length < n) password += draw();\<close> where each draw is a number
  appended in decimal (signup.js \<open>generatePassword\<close>, script.js \<open>generatePassword\<close>).
  The \<open>k\<close>-th draw is \<open>draw k\<close>; the loop returns the padded string and the number of
  the next draw. Every round appends at least one character, so \<open>n - length\<close> decreases.
\<close>

function pad_digits :: "(nat \<Rightarrow> nat) \<Rightarrow> nat \<Rightarrow> nat \<Rightarrow> string \<Rightarrow> string \<times> nat" where
  "pad_digits draw n k pw =
     (if length pw < n then pad_digits draw n (Suc k) (pw @ dec_string (draw k)) else (pw, k))"
  by pat_completeness auto
termination
proof (relation "measure (\<lambda>(draw, n, k, pw). n - length pw)")
  fix draw :: "nat \<Rightarrow> nat" and n k :: nat and pw :: string
  assume "length pw < n"
  moreover obtain c cs where "dec_string (draw k) = c # cs"
    by (cases "dec_string (draw k)") (simp_all add: dec_string.simps [of "draw k"] split: if_splits)
  ultimately show "((draw, n, Suc k, pw @ dec_string (draw k)), draw, n, k, pw)
                   \<in> measure (\<lambda>(draw, n, k, pw). n - length pw)" by simp
qed simp

text \<open>
  The same loop as the library's \<open>while_option\<close> over the state (password, next draw),
  which is \<open>None\<close> exactly when the loop does not stop.
\<close>

definition pad_loop :: "(nat \<Rightarrow> nat) \<Rightarrow> nat \<Rightarrow> string \<times> nat \<Rightarrow> (string \<times> nat) option" where
  "pad_loop draw n s =
     while_option (\<lambda>(pw, k). length pw < n) (\<lambda>(pw, k). (pw @ dec_string (draw k), Suc k)) s"

subsection \<open>Strength tiers\<close>

text \<open>The three tiers \<open>'weak'\<close>, \<open>'fair'\<close>, \<open>'strong'\<close> of both pages.\<close>

datatype tier = Weak | Fair | Strong

subsection \<open>Facts: The random source\<close>

lemma rng_okD [dest]: "rng_ok rng \<Longrightarrow> 0 < m \<Longrightarrow> rng i m < m"
  by (simp add: rng_ok_def)

lemma rng_ok_const0 [intro]: "rng_ok (\<lambda>i m. 0)"
  by (simp add: rng_ok_def)

subsection \<open>Facts: Decimal rendering: \<open>String(n)\<close> and \<open>s += n\<close>\<close>

lemma dec_string_small [simp]: "n < 10 \<Longrightarrow> dec_string n = [digit_char n]"
  by (simp add: dec_string.simps)

lemma dec_string_ne [simp]: "dec_string n \<noteq> []"
  by (subst dec_string.simps) simp

lemma dec_string_digits: "c \<in> set (dec_string n) \<Longrightarrow> \<exists>d<10. c = digit_char d"
proof (induction n rule: dec_string.induct)
  case (1 n)
  show ?case
  proof (cases "n < 10")
    case True
    with "1.prems" show ?thesis by auto
  next
    case False
    with "1.prems" have "c \<in> set (dec_string (n div 10)) \<or> c = digit_char (n mod 10)"
      by (subst (asm) dec_string.simps) auto
    moreover have "n mod 10 < 10" by simp
    ultimately show ?thesis using False "1.IH" by blast
  qed
qed

lemma dec_string_two_digits: "10 \<le> n \<Longrightarrow> n < 100 \<Longrightarrow> dec_string n = [digit_char (n div 10), digit_char (n mod 10)]"
  by (subst dec_string.simps) simp

lemma length_dec_string_pos: "0 < length (dec_string n)"
  by (simp add: length_greater_0_conv)

lemma of_char_digit_char: "d < 10 \<Longrightarrow> (of_char (digit_char d) :: nat) = 48 + d"
  by (simp add: digit_char_def)

lemma dec_value_snoc: "dec_value (s @ [c]) = 10 * dec_value s + (of_char c - 48)"
  by (simp add: dec_value_def)

lemma dec_value_dec_string: "dec_value (dec_string n) = n"
proof (induction n rule: dec_string.induct)
  case (1 n)
  show ?case
  proof (cases "n < 10")
    case True
    then show ?thesis by (simp add: dec_value_def of_char_digit_char)
  next
    case False
    then have "dec_string n = dec_string (n div 10) @ [digit_char (n mod 10)]"
      by (subst dec_string.simps) simp
    with False "1.IH" show ?thesis by (simp add: dec_value_snoc of_char_digit_char)
  qed
qed

lemma dec_string_inj: "dec_string m = dec_string n \<longleftrightarrow> m = n"
  by (metis dec_value_dec_string)

text \<open>Evaluation of \<open>char_of\<close> on a numeral, for concrete strings.\<close>

lemmas char_eval = char_of_def bit_0

subsection \<open>Facts: Index access and substrings\<close>

lemma js_substring_0 [js_simps]: "0 \<le> n \<Longrightarrow> js_substring s 0 n = take (nat n) s"
  by (simp add: js_substring_def js_clamp_def Let_def min_def max_def nat_le_iff)

lemma js_substring_from_nat [js_simps]: "js_substring_from s (int k) = drop k s"
  by (simp add: js_substring_from_def js_substring_def js_clamp_def Let_def min_def max_def)

lemma js_substring_butlast [js_simps]: "js_substring s 0 (int (length s) - 1) = butlast s"
proof (cases "s = []")
  case True
  then show ?thesis by (simp add: js_substring_def js_clamp_def)
next
  case False
  then have "nat (int (length s) - 1) = length s - 1" by (simp add: nat_diff_distrib')
  with False show ?thesis by (simp add: js_substring_0 butlast_conv_take)
qed

lemma js_substring_from_last: "js_substring_from s (int (length s) - int n) = drop (length s - n) s"
  by (simp add: js_substring_from_def js_substring_def js_clamp_def Let_def min_def max_def)
     (auto simp: nat_diff_distrib)

subsection \<open>Facts: Case mapping of ASCII letters\<close>

lemma length_js_to_upper [simp]: "length (js_to_upper s) = length s"
  and length_js_to_lower [simp]: "length (js_to_lower s) = length s"
  by (simp_all add: js_to_upper_def js_to_lower_def)

lemma js_to_upper_Nil [simp]: "js_to_upper [] = []"
  and js_to_lower_Nil [simp]: "js_to_lower [] = []"
  by (simp_all add: js_to_upper_def js_to_lower_def)

lemma capitalize_Nil [simp]: "capitalize [] = []"
  by (simp add: capitalize_def)

lemma capitalize_Cons [simp]: "capitalize (c # cs) = js_upper_char c # js_to_lower cs"
  by (simp add: capitalize_def js_to_upper_def)

lemma length_capitalize [simp]: "length (capitalize s) = length s"
  by (cases s) simp_all

subsection \<open>Facts: \<open>s.split(c)\<close> and \<open>parts.join(c)\<close>\<close>

lemma split_on_ne [simp]: "split_on c s \<noteq> []"
  by (induction s) (simp_all add: Let_def)

lemma join_with_Cons_ne: "ws \<noteq> [] \<Longrightarrow> join_with c (w # ws) = w @ c # join_with c ws"
  by (cases ws) simp_all

text \<open>Joining the pieces of a split with the same separator gives the string back.\<close>

lemma join_split_on: "join_with c (split_on c s) = s"
proof (induction s)
  case Nil
  then show ?case by simp
next
  case (Cons x xs)
  obtain w ws where r: "split_on c xs = w # ws"
    by (cases "split_on c xs") simp_all
  with Cons.IH show ?case
    by (cases ws) (simp_all add: Let_def)
qed

lemma split_on_no_sep: "w \<in> set (split_on c s) \<Longrightarrow> c \<notin> set w"
proof (induction s arbitrary: w)
  case Nil
  then show ?case by simp
next
  case (Cons x xs)
  obtain v vs where r: "split_on c xs = v # vs"
    by (cases "split_on c xs") simp_all
  with Cons show ?case
    by (auto simp: Let_def split: if_splits)
qed

subsection \<open>Facts: \<open>s.trim()\<close>\<close>

lemma dropWhile_hd_stop: "xs = [] \<or> \<not> P (hd xs) \<Longrightarrow> dropWhile P xs = xs"
  by (cases xs) simp_all

lemma dropWhile_stops: "dropWhile P xs = [] \<or> \<not> P (hd (dropWhile P xs))"
  using hd_dropWhile by blast

lemma set_js_trim: "set (js_trim s) \<subseteq> set s"
  unfolding js_trim_def by (auto dest!: set_dropWhileD)

lemma js_trim_ends: "js_trim s = [] \<or> \<not> js_ws (hd (js_trim s)) \<and> \<not> js_ws (last (js_trim s))"
proof -
  define t where "t = dropWhile js_ws s"
  define u where "u = dropWhile js_ws (rev t)"
  have t: "t = [] \<or> \<not> js_ws (hd t)"
    unfolding t_def by (rule dropWhile_stops)
  have u: "u = [] \<or> \<not> js_ws (hd u)"
    unfolding u_def by (rule dropWhile_stops)
  have "rev t = takeWhile js_ws (rev t) @ u"
    by (simp add: u_def)
  then obtain r where tu: "t = rev u @ r"
    by (metis rev_append rev_rev_ident)
  have "js_trim s = rev u"
    by (simp add: js_trim_def t_def u_def)
  moreover have "u = [] \<or> \<not> js_ws (hd (rev u))"
  proof (cases "rev u")
    case (Cons a as)
    with tu have "t = a # as @ r" by simp
    with t Cons show ?thesis by simp
  qed simp
  ultimately show ?thesis using u by (auto simp: last_rev)
qed

lemma length_js_trim: "length (js_trim s) \<le> length s"
proof -
  have "length (dropWhile js_ws (rev (dropWhile js_ws s))) \<le> length (rev (dropWhile js_ws s))"
    by (rule length_dropWhile_le)
  also have "\<dots> \<le> length s" by (simp add: length_dropWhile_le)
  finally show ?thesis by (simp add: js_trim_def)
qed

lemma js_trim_idem: "js_trim (js_trim s) = js_trim s"
proof -
  have "dropWhile js_ws (js_trim s) = js_trim s" "dropWhile js_ws (rev (js_trim s)) = rev (js_trim s)"
    using js_trim_ends [of s] by (auto intro!: dropWhile_hd_stop simp: hd_rev)
  then show ?thesis by (simp only: js_trim_def [of "js_trim s"] rev_rev_ident)
qed

lemma js_trim_fixed: "js_trim u = u \<longleftrightarrow> u = [] \<or> \<not> js_ws (hd u) \<and> \<not> js_ws (last u)"
proof
  assume "js_trim u = u" then show "u = [] \<or> \<not> js_ws (hd u) \<and> \<not> js_ws (last u)"
    using js_trim_ends [of u] by simp
next
  assume h: "u = [] \<or> \<not> js_ws (hd u) \<and> \<not> js_ws (last u)"
  have "dropWhile js_ws u = u" "dropWhile js_ws (rev u) = rev u"
    using h by (auto intro!: dropWhile_hd_stop simp: hd_rev)
  then show "js_trim u = u" by (simp add: js_trim_def)
qed

subsection \<open>Facts: Array indexing\<close>

lemma js_index_str_in [simp]: "i < length xs \<Longrightarrow> js_index_str xs i = xs ! i"
  by (simp add: js_index_str_def)

subsection \<open>Facts: Padding with random digits\<close>

declare pad_digits.simps [simp del]

lemma pad_digits_done [simp]: "n \<le> length pw \<Longrightarrow> pad_digits draw n k pw = (pw, k)"
  by (simp add: pad_digits.simps)

lemma pad_digits_step: "length pw < n \<Longrightarrow> pad_digits draw n k pw = pad_digits draw n (Suc k) (pw @ dec_string (draw k))"
  by (simp add: pad_digits.simps)

lemma pad_digits_long: "n \<le> length (fst (pad_digits draw n k pw))"
proof (induction draw n k pw rule: pad_digits.induct)
  case (1 draw n k pw)
  then show ?case
    by (cases "length pw < n") (simp_all add: pad_digits_step)
qed

lemma pad_digits_prefix: "\<exists>ds. fst (pad_digits draw n k pw) = pw @ ds \<and> (\<forall>c\<in>set ds. \<exists>d<10. c = digit_char d)"
proof (induction draw n k pw rule: pad_digits.induct)
  case (1 draw n k pw)
  show ?case
  proof (cases "length pw < n")
    case True
    with "1.IH" obtain ds where ds: "fst (pad_digits draw n (Suc k) (pw @ dec_string (draw k))) = (pw @ dec_string (draw k)) @ ds"
      and dig: "\<forall>c\<in>set ds. \<exists>d<10. c = digit_char d" by blast
    have "\<forall>c\<in>set (dec_string (draw k) @ ds). \<exists>d<10. c = digit_char d"
      using dig dec_string_digits by auto
    with True ds show ?thesis by (auto simp: pad_digits_step)
  qed auto
qed

text \<open>With single-digit draws the loop stops exactly at the bound.\<close>

lemma pad_digits_length:
  "(\<forall>j. draw j < 10) \<Longrightarrow> length (fst (pad_digits draw n k pw)) = max n (length pw)"
proof (induction draw n k pw rule: pad_digits.induct)
  case (1 draw n k pw)
  then show ?case
    by (cases "length pw < n") (simp_all add: pad_digits_step)
qed

lemma pad_digits_draws: "k \<le> snd (pad_digits draw n k pw)"
proof (induction draw n k pw rule: pad_digits.induct)
  case (1 draw n k pw)
  then show ?case
    by (cases "length pw < n") (simp_all add: pad_digits_step)
qed

lemma pad_loop_pad_digits: "pad_loop draw n (pw, k) = Some (pad_digits draw n k pw)"
proof (induction draw n k pw rule: pad_digits.induct)
  case (1 draw n k pw)
  then show ?case
    by (cases "length pw < n") (simp_all add: pad_loop_def while_option_unfold [of _ _ "(pw, k)"] pad_digits_step)
qed

lemma pad_digits_single:
  "(\<forall>j. draw j < 10) \<Longrightarrow>
   pad_digits draw n k pw = (pw @ map (\<lambda>j. digit_char (draw j)) [k..<k + (n - length pw)], k + (n - length pw))"
proof (induction draw n k pw rule: pad_digits.induct)
  case (1 draw n k pw)
  show ?case
  proof (cases "length pw < n")
    case True
    have u: "[k..<k + (n - length pw)] = k # [Suc k..<Suc k + (n - length (pw @ [digit_char (draw k)]))]"
      using True by (simp add: upt_conv_Cons Suc_diff_Suc)
    have "Suc k + (n - length (pw @ [digit_char (draw k)])) = k + (n - length pw)" using True by simp
    with True "1.IH" "1.prems" u show ?thesis by (simp add: pad_digits_step)
  qed simp
qed

text \<open>
  C31 (the padding loop stops, with the digits drawn): the \<open>while\<close> loop of both generators, run as \<open>while_option\<close>, returns; when every draw is a single digit, as \<open>Math.floor(Math.random() * 10)\<close> gives, it appends exactly \<open>n - length pw\<close> digits, the draws \<open>k\<close>, \<open>k + 1\<close>, ... in order, and stops with the password at length \<open>max n (length pw)\<close>.
\<close>

theorem pad_loop_terminates:
  "(\<forall>j. draw j < 10) \<Longrightarrow>
   pad_loop draw n (pw, k) = Some (pw @ map (\<lambda>j. digit_char (draw j)) [k..<k + (n - length pw)], k + (n - length pw))"
  using pad_digits_single [of draw n k pw] by (simp add: pad_loop_pad_digits)

theorem pad_loop_terminates_witness:
  "pad_loop (\<lambda>j. 7) 5 (''abc'', 1) = Some (''abc77'', 3)"
  using pad_loop_terminates [of "\<lambda>j. 7" 5 "''abc''" 1] by (simp add: digit_char_def upt_conv_Cons char_eval)
end
