(* ===== verification/CharClasses.thy ===== *)
theory CharClasses
  imports Prelude
begin

text \<open>
  The regular-expression character classes the sources test passwords and answers
  against: \<open>/[A-Z]/\<close>, \<open>/[a-z]/\<close>, \<open>/\d/\<close>, the special class
  \<open>/[!@#$%^&*()_+\-=\[\]{}|;:,.<>?]/\<close> (auth.js and signup.js), \<open>/[^a-zA-Z0-9]/\<close>
  (auth.js \<open>getCharsetSize\<close>), \<open>/[^a-zA-Z]/\<close> (script.js) and \<open>/[<>"'`;=]/\<close>
  (auth.js \<open>sanitizeInput\<close>). A regex \<open>test\<close> on a string is \<open>list_ex\<close> of the class.
\<close>

definition is_upper :: "char \<Rightarrow> bool" where
  "is_upper c \<longleftrightarrow> 65 \<le> (of_char c :: nat) \<and> (of_char c :: nat) \<le> 90"

definition is_lower :: "char \<Rightarrow> bool" where
  "is_lower c \<longleftrightarrow> 97 \<le> (of_char c :: nat) \<and> (of_char c :: nat) \<le> 122"

definition is_digit :: "char \<Rightarrow> bool" where
  "is_digit c \<longleftrightarrow> 48 \<le> (of_char c :: nat) \<and> (of_char c :: nat) \<le> 57"

text \<open>
  The members of the special class; the same characters as signup.js's otherwise unused
  constant \<open>SPECIAL_CHARS\<close>.
\<close>

definition SPECIAL_CHARS :: string where
  "SPECIAL_CHARS = ''!@#$%^&*()_+-=[]{}|;:,.<>?''"

definition is_special :: "char \<Rightarrow> bool" where
  "is_special c \<longleftrightarrow> c \<in> set SPECIAL_CHARS"

definition is_alpha :: "char \<Rightarrow> bool" where
  "is_alpha c \<longleftrightarrow> is_upper c \<or> is_lower c"

definition is_non_alnum :: "char \<Rightarrow> bool" where
  "is_non_alnum c \<longleftrightarrow> \<not> is_alpha c \<and> \<not> is_digit c"

definition has_upper :: "string \<Rightarrow> bool" where
  "has_upper s = list_ex is_upper s"

definition has_lower :: "string \<Rightarrow> bool" where
  "has_lower s = list_ex is_lower s"

definition has_digit :: "string \<Rightarrow> bool" where
  "has_digit s = list_ex is_digit s"

definition has_special :: "string \<Rightarrow> bool" where
  "has_special s = list_ex is_special s"

definition has_non_alnum :: "string \<Rightarrow> bool" where
  "has_non_alnum s = list_ex is_non_alnum s"

text \<open>How many of the four classes a string shows, as both pages count them.\<close>

definition class_count :: "string \<Rightarrow> nat" where
  "class_count password =
     of_bool (has_upper password) + of_bool (has_lower password) +
     of_bool (has_digit password) + of_bool (has_special password)"

lemmas has_class_defs = has_upper_def has_lower_def has_digit_def has_special_def has_non_alnum_def

subsection \<open>The classes on the characters the code writes\<close>

lemma special_chars_members [class_simps]:
  "is_special (CHR ''@'')" "is_special (CHR ''#'')" "is_special (CHR ''$'')"
  "is_special (CHR ''!'')" "is_special (CHR ''%'')" "is_special (CHR ''&'')"
  "is_special (CHR ''*'')" "is_special (CHR ''-'')"
  by (simp_all add: is_special_def SPECIAL_CHARS_def)

lemma upper_A [class_simps]: "is_upper (CHR ''A'')" and lower_a [class_simps]: "is_lower (CHR ''a'')"
  by (simp_all add: is_upper_def is_lower_def)

lemma digit_char_is_digit [class_simps]: "d < 10 \<Longrightarrow> is_digit (digit_char d)"
  by (simp add: is_digit_def digit_char_def)

lemma dec_string_has_digit [class_simps]: "has_digit (dec_string n)"
proof -
  obtain c cs where "dec_string n = c # cs" by (cases "dec_string n") simp_all
  then have "c \<in> set (dec_string n)" by simp
  then obtain d where "d < 10" and "c = digit_char d" using dec_string_digits by blast
  with \<open>dec_string n = c # cs\<close> show ?thesis
    by (simp add: has_digit_def digit_char_is_digit)
qed

subsection \<open>Disjointness\<close>

lemma special_not_alnum: "is_special c \<Longrightarrow> \<not> is_upper c \<and> \<not> is_lower c \<and> \<not> is_digit c"
proof -
  assume "is_special c"
  then have "(of_char c :: nat) \<in> set (map of_char SPECIAL_CHARS)"
    by (simp add: is_special_def)
  then show ?thesis
    by (simp add: SPECIAL_CHARS_def is_upper_def is_lower_def is_digit_def) auto
qed

lemma digit_not_alpha: "is_digit c \<Longrightarrow> \<not> is_upper c \<and> \<not> is_lower c"
  by (simp add: is_digit_def is_upper_def is_lower_def)

lemma upper_not_lower: "is_upper c \<Longrightarrow> \<not> is_lower c"
  by (simp add: is_upper_def is_lower_def)

lemma special_non_alnum: "is_special c \<Longrightarrow> is_non_alnum c"
  using special_not_alnum by (simp add: is_non_alnum_def is_alpha_def)

lemma digit_char_not_alpha [class_simps]: "d < 10 \<Longrightarrow> \<not> is_upper (digit_char d) \<and> \<not> is_lower (digit_char d) \<and> \<not> is_special (digit_char d)"
  using digit_char_is_digit digit_not_alpha special_not_alnum by blast

subsection \<open>The classes under the ASCII case mappings\<close>

lemma of_char_upper_char: "is_lower c \<Longrightarrow> (of_char (js_upper_char c) :: nat) = of_char c - 32"
proof -
  have "(of_char c :: nat) - 32 < 256" using nat_of_char_less_256 [of c] by arith
  then show "is_lower c \<Longrightarrow> ?thesis" by (simp add: js_upper_char_def is_lower_def)
qed

lemma of_char_lower_char: "is_upper c \<Longrightarrow> (of_char (js_lower_char c) :: nat) = of_char c + 32"
  by (simp add: js_lower_char_def is_upper_def)

lemma is_upper_js_upper_char: "is_lower c \<Longrightarrow> is_upper (js_upper_char c)"
proof -
  assume l: "is_lower c"
  then have "(of_char (js_upper_char c) :: nat) = of_char c - 32" by (rule of_char_upper_char)
  with l show ?thesis unfolding is_upper_def is_lower_def by linarith
qed

lemma is_lower_js_lower_char: "is_upper c \<Longrightarrow> is_lower (js_lower_char c)"
proof -
  assume u: "is_upper c"
  then have "(of_char (js_lower_char c) :: nat) = of_char c + 32" by (rule of_char_lower_char)
  with u show ?thesis unfolding is_upper_def is_lower_def by linarith
qed

lemma js_upper_char_fix: "\<not> is_lower c \<Longrightarrow> js_upper_char c = c"
  by (auto simp: js_upper_char_def is_lower_def)

lemma js_lower_char_fix: "\<not> is_upper c \<Longrightarrow> js_lower_char c = c"
  by (auto simp: js_lower_char_def is_upper_def)

lemma js_lower_char_not_upper: "\<not> is_upper (js_lower_char c)"
proof (cases "is_upper c")
  case True
  then show ?thesis using is_lower_js_lower_char upper_not_lower by blast
qed (simp add: js_lower_char_fix)

lemma js_upper_char_not_lower: "\<not> is_lower (js_upper_char c)"
proof (cases "is_lower c")
  case True
  then show ?thesis using is_upper_js_upper_char upper_not_lower by blast
qed (simp add: js_upper_char_fix)

lemma js_upper_char_eq_nonalpha: "\<not> is_alpha d \<Longrightarrow> js_upper_char c = d \<longleftrightarrow> c = d"
proof (cases "is_lower c")
  case True
  then have "is_upper (js_upper_char c)" by (rule is_upper_js_upper_char)
  moreover assume "\<not> is_alpha d"
  ultimately show ?thesis using True by (auto simp: is_alpha_def)
qed (simp add: js_upper_char_fix)

lemma js_lower_char_eq_nonalpha: "\<not> is_alpha d \<Longrightarrow> js_lower_char c = d \<longleftrightarrow> c = d"
proof (cases "is_upper c")
  case True
  then have "is_lower (js_lower_char c)" by (rule is_lower_js_lower_char)
  moreover assume "\<not> is_alpha d"
  ultimately show ?thesis using True by (auto simp: is_alpha_def)
qed (simp add: js_lower_char_fix)

lemma nonalpha_eq_js_upper_char: "\<not> is_alpha d \<Longrightarrow> d = js_upper_char c \<longleftrightarrow> c = d"
  and nonalpha_eq_js_lower_char: "\<not> is_alpha d \<Longrightarrow> d = js_lower_char c \<longleftrightarrow> c = d"
  using js_upper_char_eq_nonalpha js_lower_char_eq_nonalpha by metis+

lemma is_alpha_upper_char: "is_alpha c \<Longrightarrow> is_upper (js_upper_char c)"
  using is_upper_js_upper_char js_upper_char_fix upper_not_lower by (auto simp: is_alpha_def)

lemma is_alpha_lower_char: "is_alpha c \<Longrightarrow> is_lower (js_lower_char c)"
  by (metis is_alpha_def is_lower_js_lower_char js_lower_char_fix upper_not_lower)

lemma SP_not_alpha: "\<not> is_alpha SP"
  by (simp add: is_alpha_def is_upper_def is_lower_def)

subsection \<open>Classes of concatenations\<close>

lemma has_class_append [simp]:
  "has_upper (xs @ ys) \<longleftrightarrow> has_upper xs \<or> has_upper ys"
  "has_lower (xs @ ys) \<longleftrightarrow> has_lower xs \<or> has_lower ys"
  "has_digit (xs @ ys) \<longleftrightarrow> has_digit xs \<or> has_digit ys"
  "has_special (xs @ ys) \<longleftrightarrow> has_special xs \<or> has_special ys"
  by (simp_all add: has_class_defs)

lemma has_class_Cons [simp]:
  "has_upper (c # ys) \<longleftrightarrow> is_upper c \<or> has_upper ys"
  "has_lower (c # ys) \<longleftrightarrow> is_lower c \<or> has_lower ys"
  "has_digit (c # ys) \<longleftrightarrow> is_digit c \<or> has_digit ys"
  "has_special (c # ys) \<longleftrightarrow> is_special c \<or> has_special ys"
  "\<not> has_upper []" "\<not> has_lower []" "\<not> has_digit []" "\<not> has_special []"
  by (simp_all add: has_class_defs)

lemma dec_string_classes [simp]:
  "\<not> has_upper (dec_string n)" "\<not> has_lower (dec_string n)" "\<not> has_special (dec_string n)"
  using dec_string_digits digit_char_not_alpha by (fastforce simp: has_class_defs list_ex_iff)+

lemma dec_string_not_upper: "c \<in> set (dec_string n) \<Longrightarrow> \<not> is_upper c"
  using dec_string_digits digit_char_not_alpha by blast

lemma undefined_no_upper: "\<not> has_upper (js_index_str xs i)" if "\<forall>s\<in>set xs. \<not> has_upper s"
  using that by (auto simp: js_index_str_def has_class_defs is_upper_def)

lemma class_count_ge3:
  "has_lower s \<Longrightarrow> has_digit s \<Longrightarrow> has_special s \<Longrightarrow> 3 \<le> class_count s"
  by (simp add: class_count_def)

lemma class_count_4: "class_count s = 4 \<longleftrightarrow> has_upper s \<and> has_lower s \<and> has_digit s \<and> has_special s"
  by (simp add: class_count_def of_bool_def)

end
