(* ===== verification/Transform.thy ===== *)
theory Transform
  imports CharClasses "HOL-Library.Multiset"
begin

text \<open>
  The answer transformation of the signup page (signup.js \<open>transformAnswer\<close>) and the
  question catalogue it is keyed by (signup.js \<open>getRemainingQuestions\<close>). An answer is
  first capitalised by a rule chosen by its question type, then five case-insensitive
  global replacements (\<open>/a/gi\<close>, \<open>/s/gi\<close>, \<open>/i/gi\<close>, \<open>/o/gi\<close>, \<open>/e/gi\<close>)
  substitute symbols and digits for vowels and \<open>s\<close>.
\<close>

subsection \<open>The question catalogue\<close>

datatype question = Pet | Mother | City | Car | School | Movie | Food

primrec question_value :: "question \<Rightarrow> string" where
  "question_value Pet = ''pet''"
| "question_value Mother = ''mother''"
| "question_value City = ''city''"
| "question_value Car = ''car''"
| "question_value School = ''school''"
| "question_value Movie = ''movie''"
| "question_value Food = ''food''"

definition questions :: "(string \<times> string) list" where
  "questions =
     [(''pet'', ''What was the name of your first pet?''),
      (''mother'', ''What is your mother's maiden name?''),
      (''city'', ''In what city were you born?''),
      (''car'', ''What was the make and model of your first car?''),
      (''school'', ''What high school did you attend?''),
      (''movie'', ''What is your favorite movie?''),
      (''food'', ''What is your favorite food?'')]"

definition option_html :: "string \<times> string \<Rightarrow> string" where
  "option_html q = ''<option value=\"'' @ fst q @ ''\">'' @ snd q @ ''</option>''"

definition getRemainingQuestions :: "string \<Rightarrow> string" where
  "getRemainingQuestions exclude =
     concat (map option_html (filter (\<lambda>q. fst q \<noteq> exclude) questions))"

definition remaining_values :: "string \<Rightarrow> string list" where
  "remaining_values exclude = map fst (filter (\<lambda>q. fst q \<noteq> exclude) questions)"

subsection \<open>Capitalisation by question type\<close>

text \<open>\<open>s.split(' ').map(capitalize).join('')\<close>: the rule for \<open>car\<close>, \<open>movie\<close> and \<open>food\<close>.\<close>

definition capitalize_words :: "string \<Rightarrow> string" where
  "capitalize_words s = concat (map capitalize (split_on SP s))"

definition transform_case :: "string \<Rightarrow> string \<Rightarrow> string" where
  "transform_case answer type =
     (if type = ''pet'' \<or> type = ''mother'' \<or> type = ''city'' \<or> type = ''school''
      then capitalize answer
      else if type = ''car'' then capitalize_words answer
      else if type = ''movie'' \<or> type = ''food'' then capitalize_words answer
      else answer)"

subsection \<open>Case-insensitive global replacement\<close>

text \<open>
  \<open>s.replace(/p/gi, r)\<close> for a one-letter pattern \<open>p\<close>: a character matches when its
  canonical (upper-case) form is that of \<open>p\<close>, as in ECMAScript's \<open>Canonicalize\<close>.
\<close>

definition replace_ci :: "char \<Rightarrow> char \<Rightarrow> string \<Rightarrow> string" where
  "replace_ci p r s = map (\<lambda>c. if js_upper_char c = js_upper_char p then r else c) s"

definition leet :: "string \<Rightarrow> string" where
  "leet s =
     replace_ci (CHR ''e'') (CHR ''3'')
      (replace_ci (CHR ''o'') (CHR ''0'')
        (replace_ci (CHR ''i'') (CHR ''!'')
          (replace_ci (CHR ''s'') (CHR ''$'')
            (replace_ci (CHR ''a'') (CHR ''@'') s))))"

definition transformAnswer :: "string \<Rightarrow> string \<Rightarrow> string" where
  "transformAnswer answer type = leet (transform_case answer type)"

subsection \<open>The five replacements are one character substitution\<close>

text \<open>The substitution table the five \<open>replace\<close> calls implement, one character at a time.\<close>

definition leet_char :: "char \<Rightarrow> char" where
  "leet_char c =
     (let u = js_upper_char c in
      if u = CHR ''A'' then CHR ''@'' else if u = CHR ''S'' then CHR ''$''
      else if u = CHR ''I'' then CHR ''!'' else if u = CHR ''O'' then CHR ''0''
      else if u = CHR ''E'' then CHR ''3'' else c)"

subsection \<open>The replacements in any order\<close>

text \<open>
  The five \<open>replace\<close> calls as a list of (pattern, replacement) pairs in the source's
  order; \<open>apply_rules\<close> runs such a list in its order, and \<open>rule_table\<close> is the
  single lookup the list amounts to when no replacement is a letter.
\<close>

definition leet_rules :: "(char \<times> char) list" where
  "leet_rules = [(CHR ''a'', CHR ''@''), (CHR ''s'', CHR ''$''), (CHR ''i'', CHR ''!''),
                 (CHR ''o'', CHR ''0''), (CHR ''e'', CHR ''3'')]"

definition apply_rules :: "(char \<times> char) list \<Rightarrow> string \<Rightarrow> string" where
  "apply_rules rules s = fold (\<lambda>(p, r). replace_ci p r) rules s"

definition rule_table :: "(char \<times> char) list \<Rightarrow> char \<Rightarrow> char" where
  "rule_table rules c =
     (case map_of (map (\<lambda>(p, r). (js_upper_char p, r)) rules) (js_upper_char c) of Some r \<Rightarrow> r | None \<Rightarrow> c)"

subsection \<open>Word capitalisation in one pass\<close>

text \<open>
  A reference for \<open>split(' ').map(capitalize).join('')\<close>: walk the string once, drop
  each space, upper-case the first character after the start or a space and lower-case
  every other.
\<close>

fun cap_words :: "bool \<Rightarrow> string \<Rightarrow> string" where
  "cap_words start [] = []"
| "cap_words start (c # cs) =
     (if c = SP then cap_words True cs
      else (if start then js_upper_char c else js_lower_char c) # cap_words False cs)"

subsection \<open>Facts: The question catalogue\<close>

lemma questions_values: "map fst questions = map question_value [Pet, Mother, City, Car, School, Movie, Food]"
  by (simp add: questions_def)

lemma question_value_inj: "question_value a = question_value b \<longleftrightarrow> a = b"
  by (cases a; cases b) simp_all

subsection \<open>Facts: The five replacements are one character substitution\<close>

lemma upper_char_literals [js_simps]:
  "js_upper_char (CHR ''a'') = CHR ''A''" "js_upper_char (CHR ''s'') = CHR ''S''"
  "js_upper_char (CHR ''i'') = CHR ''I''" "js_upper_char (CHR ''o'') = CHR ''O''"
  "js_upper_char (CHR ''e'') = CHR ''E''"
  "js_upper_char (CHR ''@'') = CHR ''@''" "js_upper_char (CHR ''$'') = CHR ''$''"
  "js_upper_char (CHR ''!'') = CHR ''!''" "js_upper_char (CHR ''0'') = CHR ''0''"
  "js_upper_char (CHR ''3'') = CHR ''3''"
  by (simp_all add: js_upper_char_def char_eval)
lemma leet_char_steps:
  "(let c1 = (if js_upper_char c = CHR ''A'' then CHR ''@'' else c);
        c2 = (if js_upper_char c1 = CHR ''S'' then CHR ''$'' else c1);
        c3 = (if js_upper_char c2 = CHR ''I'' then CHR ''!'' else c2);
        c4 = (if js_upper_char c3 = CHR ''O'' then CHR ''0'' else c3)
    in if js_upper_char c4 = CHR ''E'' then CHR ''3'' else c4) = leet_char c"
  by (simp add: leet_char_def Let_def upper_char_literals)

lemma leet_map: "leet s = map leet_char s"
proof -
  have "leet s = map (\<lambda>c. let c1 = (if js_upper_char c = CHR ''A'' then CHR ''@'' else c);
        c2 = (if js_upper_char c1 = CHR ''S'' then CHR ''$'' else c1);
        c3 = (if js_upper_char c2 = CHR ''I'' then CHR ''!'' else c2);
        c4 = (if js_upper_char c3 = CHR ''O'' then CHR ''0'' else c3)
    in if js_upper_char c4 = CHR ''E'' then CHR ''3'' else c4) s"
    by (simp add: leet_def replace_ci_def upper_char_literals Let_def)
  then show ?thesis by (simp only: leet_char_steps)
qed
lemma leet_char_not_vowel:
  "js_upper_char (leet_char c) \<notin> {CHR ''A'', CHR ''S'', CHR ''I'', CHR ''O'', CHR ''E''}"
  by (simp add: leet_char_def Let_def upper_char_literals)

lemma leet_keeps_other: "js_upper_char c \<notin> {CHR ''A'', CHR ''S'', CHR ''I'', CHR ''O'', CHR ''E''} \<Longrightarrow> leet_char c = c"
  by (simp add: leet_char_def Let_def)

subsection \<open>Facts: the replacements in any order\<close>

lemma leet_apply_rules: "leet s = apply_rules leet_rules s"
  by (simp add: leet_def apply_rules_def leet_rules_def)

lemma apply_rules_table:
  assumes "\<forall>(p, r)\<in>set rules. is_alpha p \<and> \<not> is_alpha r"
  shows "apply_rules rules s = map (rule_table rules) s"
  using assms
proof (induction rules arbitrary: s)
  case Nil
  then show ?case by (simp add: apply_rules_def rule_table_def)
next
  case (Cons pr rules)
  obtain p r where pr: "pr = (p, r)" by fastforce
  with Cons.prems have p: "is_alpha p" and r: "\<not> is_alpha r" by auto
  have "rule_table rules r = r"
  proof -
    have "js_upper_char r = r" using r js_upper_char_fix by (auto simp: is_alpha_def)
    moreover have "\<forall>(q, t)\<in>set rules. is_upper (js_upper_char q)"
      using Cons.prems is_alpha_upper_char by auto
    then have "map_of (map (\<lambda>(p, r). (js_upper_char p, r)) rules) r = None"
      using r by (auto simp: map_of_eq_None_iff is_alpha_def)
    ultimately show ?thesis by (simp add: rule_table_def)
  qed
  then have "rule_table rules (if js_upper_char c = js_upper_char p then r else c) = rule_table (pr # rules) c" for c
    by (simp add: pr rule_table_def)
  with Cons show ?case by (simp add: apply_rules_def pr replace_ci_def)
qed

lemma leet_rules_ok: "\<forall>(p, r)\<in>set leet_rules. is_alpha p \<and> \<not> is_alpha r"
  by (simp add: leet_rules_def is_alpha_def is_upper_def is_lower_def)

text \<open>
  C30 (the replacements are one table, in any order): running the five replacements of
  \<open>transformAnswer\<close> in any order maps each character on its own by the table
  \<open>a\<close>/\<open>A\<close> to \<open>@\<close>, \<open>s\<close>/\<open>S\<close> to \<open>$\<close>, \<open>i\<close>/\<open>I\<close> to \<open>!\<close>, \<open>o\<close>/\<open>O\<close> to \<open>0\<close>,
  \<open>e\<close>/\<open>E\<close> to \<open>3\<close>, every other character unchanged; no replacement is a letter
  another pattern could match.
\<close>

theorem leet_order_irrelevant:
  "mset rules = mset leet_rules \<Longrightarrow> apply_rules rules s = map leet_char s"
proof -
  assume m: "mset rules = mset leet_rules"
  let ?f = "\<lambda>(p, r). (js_upper_char p, r)"
  have set_eq: "set rules = set leet_rules" using m by (metis set_mset_mset)
  have ok: "\<forall>(p, r)\<in>set rules. is_alpha p \<and> \<not> is_alpha r" using leet_rules_ok set_eq by simp
  have "mset (map fst (map ?f rules)) = mset (map fst (map ?f leet_rules))" using m by simp
  moreover have d: "distinct (map fst (map ?f leet_rules))"
    by (simp add: leet_rules_def js_upper_char_def char_eval)
  ultimately have "distinct (map fst (map ?f rules))" by (metis mset_eq_imp_distinct_iff)
  then have "map_of (map ?f rules) = map_of (map ?f leet_rules)"
    using d set_eq by (simp add: map_of_inject_set)
  then have "rule_table rules = rule_table leet_rules" by (simp add: rule_table_def fun_eq_iff)
  then show ?thesis
    using apply_rules_table [OF ok] apply_rules_table [OF leet_rules_ok] leet_apply_rules leet_map by simp
qed

theorem leet_order_irrelevant_witness:
  "apply_rules (rev leet_rules) ''Mississippi Boston'' = map leet_char ''Mississippi Boston''"
  by (rule leet_order_irrelevant) (simp add: leet_rules_def)

subsection \<open>Facts: Word capitalisation in one pass\<close>

lemma cap_words_split:
  "cap_words True s = concat (map capitalize (split_on SP s)) \<and>
   cap_words False s = js_to_lower (hd (split_on SP s)) @ concat (map capitalize (tl (split_on SP s)))"
proof (induction s)
  case Nil
  then show ?case by simp
next
  case (Cons x xs)
  obtain w ws where r: "split_on SP xs = w # ws"
    by (cases "split_on SP xs") simp_all
  with Cons.IH show ?case
    by (simp add: Let_def js_to_lower_def)
qed

lemma capitalize_words_one_pass: "capitalize_words s = cap_words True s"
  by (simp add: capitalize_words_def cap_words_split)

lemma length_cap_words: "length (cap_words b s) = length (filter (\<lambda>c. c \<noteq> SP) s)"
  by (induction b s rule: cap_words.induct) simp_all

lemma cap_words_no_space: "SP \<notin> set (cap_words b s)"
  by (induction b s rule: cap_words.induct)
     (simp_all add: nonalpha_eq_js_upper_char nonalpha_eq_js_lower_char SP_not_alpha)

lemma leet_char_cases: "leet_char c \<in> {c, CHR ''@'', CHR ''$'', CHR ''!'', CHR ''0'', CHR ''3''}"
  by (simp add: leet_char_def Let_def)

lemma leet_char_SP_fix: "leet_char SP = SP"
  by (rule leet_keeps_other) (simp add: js_upper_char_def)

lemma leet_char_SP: "leet_char c = SP \<longleftrightarrow> c = SP"
  using leet_char_SP_fix leet_char_cases [of c] by auto

lemma SP_eq_leet_char: "SP = leet_char c \<longleftrightarrow> c = SP"
  using leet_char_SP by metis

subsection \<open>Facts: Properties of transformAnswer\<close>

text \<open>
  C7 (no leet letter survives): after the five replacements no character of a
  transformed answer is an \<open>a\<close>, \<open>s\<close>, \<open>i\<close>, \<open>o\<close> or \<open>e\<close> in either case, whatever
  the question type.
\<close>

theorem transformAnswer_no_leet_letters:
  "list_all (\<lambda>c. js_upper_char c \<notin> {CHR ''A'', CHR ''S'', CHR ''I'', CHR ''O'', CHR ''E''}) (transformAnswer a t)"
  unfolding transformAnswer_def leet_map list_all_iff
  using leet_char_not_vowel by auto

text \<open>
  Lengths: the name-like types (pet, mother, city, school) keep the answer's
  length; the car type drops exactly the spaces and leaves none.
\<close>

theorem transformAnswer_length:
  "length (transformAnswer a ''pet'') = length a \<and> length (transformAnswer a ''mother'') = length a \<and>
   length (transformAnswer a ''city'') = length a \<and> length (transformAnswer a ''school'') = length a \<and>
   length (transformAnswer a ''car'') = length (filter (\<lambda>c. c \<noteq> SP) a) \<and>
   SP \<notin> set (transformAnswer a ''car'')"
  using cap_words_no_space [of True a]
  by (auto simp: transformAnswer_def transform_case_def capitalize_words_one_pass length_cap_words leet_map SP_eq_leet_char leet_char_SP_fix)

text \<open>
  One-pass word capitalisation: for car, movie and food, splitting on spaces,
  capitalising every piece and joining with the empty string is the single pass
  \<open>cap_words\<close> that drops spaces and upper-cases the first letter of every word.
\<close>

theorem transform_case_words:
  "transform_case a ''car'' = cap_words True a \<and> transform_case a ''movie'' = cap_words True a \<and>
   transform_case a ''food'' = cap_words True a"
  by (simp add: transform_case_def capitalize_words_one_pass)

end
