(* ===== verification/Signup.thy ===== *)
theory Signup
  imports Transform
begin

text \<open>
  The password generator of the signup page (signup.js): \<open>validateAnswers\<close> reads the
  two answers from the form, \<open>generatePassword\<close> concatenates the transformed answers
  around a random separator, appends the last two digits of the year and up to three
  extra characters, pads with random digits to twelve characters and runs
  \<open>ensureComplexity\<close>, whose four \<open>if\<close> blocks are \<open>fix_upper\<close>, \<open>fix_lower\<close>,
  \<open>fix_digit\<close> and \<open>fix_special\<close>. \<open>updateStrengthIndicator\<close> scores the result.
  The \<open>i\<close>-th call of \<open>Math.random()\<close> is \<open>rng i\<close>; the functions that draw take the
  number of the next call and return it advanced.
\<close>

definition DEFAULT_SYMBOLS :: "string list" where
  "DEFAULT_SYMBOLS = [''@'', ''#'', ''$'', ''!'']"

subsection \<open>ensureComplexity\<close>

definition fix_upper :: "string \<Rightarrow> string" where
  "fix_upper result = (if \<not> has_upper result then CHR ''A'' # js_substring_from result 1 else result)"

definition fix_lower :: "string \<Rightarrow> string" where
  "fix_lower result =
     (if \<not> has_lower result then js_substring result 0 (int (length result) - 1) @ ''a'' else result)"

definition fix_digit :: "random_source \<Rightarrow> string \<times> nat \<Rightarrow> string \<times> nat" where
  "fix_digit rng rk = (let (result, k) = rk in
     if \<not> has_digit result then (result @ dec_string (rng k 10), Suc k) else (result, k))"

definition fix_special :: "random_source \<Rightarrow> string \<times> nat \<Rightarrow> string \<times> nat" where
  "fix_special rng rk = (let (result, k) = rk in
     if \<not> has_special result then (result @ js_index_str DEFAULT_SYMBOLS (rng k 4), Suc k) else (result, k))"

definition ensureComplexity :: "random_source \<Rightarrow> nat \<Rightarrow> string \<Rightarrow> string \<times> nat" where
  "ensureComplexity rng k password = fix_special rng (fix_digit rng (fix_lower (fix_upper password), k))"

subsection \<open>updateStrengthIndicator\<close>

definition length_points :: "string \<Rightarrow> nat" where
  "length_points password = (if 12 \<le> length password then 2 else if 8 \<le> length password then 1 else 0)"

definition strength_score :: "string \<Rightarrow> nat" where
  "strength_score password = length_points password + class_count password"

definition updateStrengthIndicator :: "string \<Rightarrow> tier" where
  "updateStrengthIndicator password =
     (let score = strength_score password in
      if 6 \<le> score then Strong else if 4 \<le> score then Fair else Weak)"

subsection \<open>The page state and validateAnswers\<close>

record user_answer =
  answer_text :: string
  answer_type :: string

record signup_form =
  q1 :: string
  answer1 :: "string option"
  q2 :: string
  answer2 :: "string option"
  extraChars :: string

text \<open>
  The page's globals \<open>currentPassword\<close> and \<open>userAnswers\<close>, and what
  \<open>generatePassword\<close> writes to the document: the displayed password, the enabled state
  of the copy, confirm and signup controls, the strength indicator and the alert.
\<close>

record signup_page =
  currentPassword :: string
  userAnswers :: "(user_answer \<times> user_answer) option"
  generated_text :: string
  controls_enabled :: bool
  strength_shown :: "tier option"
  alert :: "(string \<times> string) option"

text \<open>The page's state when the script is loaded: \<open>currentPassword = ""\<close>, \<open>userAnswers = {}\<close>.\<close>

definition signup_page_init :: signup_page where
  "signup_page_init =
     \<lparr>currentPassword = [], userAnswers = None, generated_text = [], controls_enabled = False,
      strength_shown = None, alert = None\<rparr>"

definition validateAnswers :: "signup_form \<Rightarrow> signup_page \<Rightarrow> bool \<times> signup_page" where
  "validateAnswers f p =
     (case (map_option js_trim (answer1 f), map_option js_trim (answer2 f)) of
        (Some a1, Some a2) \<Rightarrow>
          if a1 \<noteq> [] \<and> a2 \<noteq> []
          then (True, p\<lparr>userAnswers := Some (\<lparr>answer_text = a1, answer_type = q1 f\<rparr>,
                                             \<lparr>answer_text = a2, answer_type = q2 f\<rparr>)\<rparr>)
          else (False, p)
      | _ \<Rightarrow> (False, p))"

subsection \<open>generatePassword\<close>

text \<open>The string built before padding: answers, separator, year digits, extra characters.\<close>

definition base_password :: "random_source \<Rightarrow> nat \<Rightarrow> string \<Rightarrow> user_answer \<Rightarrow> user_answer \<Rightarrow> string" where
  "base_password rng year extra u1 u2 =
     (let password = transformAnswer (answer_text u1) (answer_type u1)
                     @ js_index_str DEFAULT_SYMBOLS (rng 0 4)
                     @ transformAnswer (answer_text u2) (answer_type u2);
          y = dec_string year;
          password = password @ js_substring_from y (int (length y) - 2)
      in if extra \<noteq> [] then password @ js_substring extra 0 3 else password)"

definition derive_password :: "random_source \<Rightarrow> nat \<Rightarrow> string \<Rightarrow> user_answer \<Rightarrow> user_answer \<Rightarrow> string" where
  "derive_password rng year extra u1 u2 =
     (let (password, k) = pad_digits (\<lambda>j. rng j 10) 12 1 (base_password rng year extra u1 u2)
      in fst (ensureComplexity rng k password))"

text \<open>
  \<open>generatePassword\<close> on the page: an error alert when \<open>validateAnswers\<close> fails,
  otherwise the derived password stored in \<open>currentPassword\<close>, shown, scored, and the
  controls enabled. \<open>validateAnswers\<close> has just set \<open>userAnswers\<close> when it succeeds,
  so the \<open>None\<close> case is unreachable.
\<close>

definition generatePassword :: "random_source \<Rightarrow> nat \<Rightarrow> signup_form \<Rightarrow> signup_page \<Rightarrow> signup_page" where
  "generatePassword rng year f p =
     (let (ok, p1) = validateAnswers f p in
      if \<not> ok then p1\<lparr>alert := Some (''Please answer both security questions'', ''error'')\<rparr>
      else case userAnswers p1 of
        None \<Rightarrow> p1
      | Some (u1, u2) \<Rightarrow>
          let password = derive_password rng year (extraChars f) u1 u2
          in p1\<lparr>currentPassword := password, generated_text := password,
                controls_enabled := True,
                strength_shown := Some (updateStrengthIndicator password),
                alert := Some (''Password generated successfully! Please confirm it below.'', ''success'')\<rparr>)"

subsection \<open>Lemmas on the complexity fixes\<close>

lemma default_symbol_classes:
  "i < 4 \<Longrightarrow> has_special (js_index_str DEFAULT_SYMBOLS i) \<and> \<not> has_upper (js_index_str DEFAULT_SYMBOLS i)
     \<and> \<not> has_lower (js_index_str DEFAULT_SYMBOLS i) \<and> \<not> has_digit (js_index_str DEFAULT_SYMBOLS i)"
  using special_not_alnum special_chars_members
  by (auto simp: DEFAULT_SYMBOLS_def less_Suc_eq numeral_eq_Suc has_class_defs)

lemma DEFAULT_SYMBOLS_no_upper: "\<not> has_upper (js_index_str DEFAULT_SYMBOLS i)"
  by (rule undefined_no_upper) (auto simp: DEFAULT_SYMBOLS_def has_class_defs is_upper_def)

lemma fix_upper_cases: "fix_upper s = (if has_upper s then s else CHR ''A'' # drop 1 s)"
  using js_substring_from_nat [of s 1] by (simp add: fix_upper_def)

lemma fix_lower_cases: "fix_lower s = (if has_lower s then s else butlast s @ ''a'')"
  by (simp add: fix_lower_def js_substring_butlast)

lemma fix_upper_has_upper: "has_upper (fix_upper s)"
  by (simp add: fix_upper_cases upper_A)

lemma fix_lower_has_lower: "has_lower (fix_lower s)"
  by (simp add: fix_lower_cases lower_a)

lemma fix_digit_eq: "\<exists>ds. fst (fix_digit rng (s, k)) = s @ ds \<and> ds \<in> {[], dec_string (rng k 10)}"
  by (simp add: fix_digit_def)

lemma fix_digit_has_digit: "has_digit (fst (fix_digit rng (s, k)))"
  by (simp add: fix_digit_def dec_string_has_digit)

lemma fix_digit_keeps:
  "has_upper (fst (fix_digit rng (s, k))) = has_upper s"
  "has_lower (fst (fix_digit rng (s, k))) = has_lower s"
  "has_special (fst (fix_digit rng (s, k))) = has_special s"
  by (simp_all add: fix_digit_def)

lemma rng_ok_symbol: "rng_ok rng \<Longrightarrow> rng k 4 < 4"
  by (simp add: rng_ok_def)

lemma fix_special_has_special: "rng_ok rng \<Longrightarrow> has_special (fst (fix_special rng (s, k)))"
  using default_symbol_classes [OF rng_ok_symbol] by (auto simp: fix_special_def)

lemma fix_special_keeps:
  "has_upper (fst (fix_special rng (s, k))) = has_upper s"
  "rng_ok rng \<Longrightarrow> has_lower (fst (fix_special rng (s, k))) = has_lower s"
  "rng_ok rng \<Longrightarrow> has_digit (fst (fix_special rng (s, k))) = has_digit s"
  using default_symbol_classes [OF rng_ok_symbol, of rng k]
  by (auto simp: fix_special_def DEFAULT_SYMBOLS_no_upper)

lemma fix_special_lower: "has_lower s \<Longrightarrow> has_lower (fst (fix_special rng (s, k)))"
  by (simp add: fix_special_def Let_def)

lemma ensureComplexity_unfold:
  "ensureComplexity rng k s = fix_special rng (fix_digit rng (fix_lower (fix_upper s), k))"
  by (simp add: ensureComplexity_def)

lemma ensureComplexity_lower_digit_special:
  assumes "rng_ok rng"
  shows "has_lower (fst (ensureComplexity rng k s)) \<and> has_digit (fst (ensureComplexity rng k s))
         \<and> has_special (fst (ensureComplexity rng k s))"
proof -
  obtain t j where t: "fix_digit rng (fix_lower (fix_upper s), k) = (t, j)" by fastforce
  have "has_lower t" using fix_digit_keeps(2) [of rng "fix_lower (fix_upper s)" k] fix_lower_has_lower t by simp
  moreover have "has_digit t" using fix_digit_has_digit [of rng "fix_lower (fix_upper s)" k] t by simp
  ultimately show ?thesis
    using assms t fix_special_keeps(2,3) [of rng t j] fix_special_has_special [of rng t j]
    by (simp add: ensureComplexity_unfold)
qed

lemma ensureComplexity_has_upper:
  "has_upper (fst (ensureComplexity rng k s)) \<longleftrightarrow>
     has_lower (fix_upper s) \<or> has_upper (butlast (fix_upper s))"
proof -
  obtain t j where t: "fix_digit rng (fix_lower (fix_upper s), k) = (t, j)" by fastforce
  have "has_upper t = has_upper (fix_lower (fix_upper s))"
    using fix_digit_keeps(1) [of rng "fix_lower (fix_upper s)" k] t by simp
  moreover have "has_upper (fix_lower (fix_upper s)) \<longleftrightarrow> has_lower (fix_upper s) \<or> has_upper (butlast (fix_upper s))"
    using fix_upper_has_upper [of s]
    by (simp add: fix_lower_cases has_class_defs list_ex_iff is_upper_def)
  ultimately show ?thesis
    using t fix_special_keeps(1) [of rng t j] by (simp add: ensureComplexity_unfold)
qed

lemma fix_upper_keeps_upper:
  "2 \<le> length s \<Longrightarrow> \<not> is_upper (last s) \<Longrightarrow> has_upper (butlast (fix_upper s))"
proof (cases "has_upper s")
  case True
  assume "2 \<le> length s" "\<not> is_upper (last s)"
  then have "s \<noteq> []" by auto
  then have "s = butlast s @ [last s]" by simp
  with True \<open>\<not> is_upper (last s)\<close> have "has_upper (butlast s)"
    by (metis has_class_append(1) has_class_Cons(1) has_class_Cons(5))
  with True show ?thesis by (simp add: fix_upper_cases)
next
  case False
  assume "2 \<le> length s"
  then obtain a b cs where "s = a # b # cs" by (cases s; cases "tl s") auto
  with False show ?thesis by (simp add: fix_upper_cases upper_A)
qed

lemma ensureComplexity_four:
  assumes "rng_ok rng" "2 \<le> length s" "\<not> is_upper (last s)"
  shows "has_upper (fst (ensureComplexity rng k s)) \<and> has_lower (fst (ensureComplexity rng k s)) \<and>
         has_digit (fst (ensureComplexity rng k s)) \<and> has_special (fst (ensureComplexity rng k s))"
  using ensureComplexity_has_upper [of rng k s] fix_upper_keeps_upper [OF assms(2,3)]
        ensureComplexity_lower_digit_special [OF assms(1), of k s]
  by blast

lemma length_fix_upper: "length (fix_upper s) = max 1 (length s)"
  by (cases s) (simp_all add: fix_upper_cases)

lemma length_fix_lower: "length (fix_lower s) = max 1 (length s)"
  by (cases "s = []") (auto simp: fix_lower_cases max_def Suc_le_eq)

lemma rng_ok_digit: "rng_ok rng \<Longrightarrow> length (dec_string (rng k 10)) = 1"
  using rng_okD [of rng 10 k] by simp

lemma length_fix_digit:
  "rng_ok rng \<Longrightarrow> length s \<le> length (fst (fix_digit rng (s, k))) \<and> length (fst (fix_digit rng (s, k))) \<le> length s + 1"
  by (simp add: fix_digit_def rng_ok_digit)

lemma length_fix_special:
  "rng_ok rng \<Longrightarrow> length s \<le> length (fst (fix_special rng (s, k))) \<and> length (fst (fix_special rng (s, k))) \<le> length s + 1"
  using rng_ok_symbol [of rng k] by (simp add: fix_special_def DEFAULT_SYMBOLS_def less_Suc_eq numeral_eq_Suc)
     (auto simp: js_index_str_def)

lemma length_ensureComplexity:
  assumes "rng_ok rng"
  shows "max 1 (length s) \<le> length (fst (ensureComplexity rng k s)) \<and>
         length (fst (ensureComplexity rng k s)) \<le> max 1 (length s) + 2"
proof -
  obtain t j where t: "fix_digit rng (fix_lower (fix_upper s), k) = (t, j)" by fastforce
  have "length (fix_lower (fix_upper s)) = max 1 (length s)"
    by (simp add: length_fix_lower length_fix_upper)
  with length_fix_digit [OF assms, of "fix_lower (fix_upper s)" k] t
  have "max 1 (length s) \<le> length t \<and> length t \<le> max 1 (length s) + 1" by simp
  with length_fix_special [OF assms, of t j] t show ?thesis
    by (simp add: ensureComplexity_unfold)
qed

lemma base_password_last:
  "extra = [] \<or> \<not> is_upper (last (take 3 extra)) \<Longrightarrow>
   base_password rng year extra u1 u2 \<noteq> [] \<and> \<not> is_upper (last (base_password rng year extra u1 u2))"
proof -
  let ?y = "dec_string year"
  have ys: "js_substring_from ?y (int (length ?y) - 2) = drop (length ?y - 2) ?y"
    using js_substring_from_last [of ?y 2] by simp
  have "0 < length ?y" by (rule length_dec_string_pos)
  then have yne: "drop (length ?y - 2) ?y \<noteq> []" by (simp, arith)
  have ylast: "\<not> is_upper (last (drop (length ?y - 2) ?y))"
    using yne by (metis dec_string_not_upper in_set_dropD last_in_set)
  assume e: "extra = [] \<or> \<not> is_upper (last (take 3 extra))"
  show ?thesis
  proof (cases "extra = []")
    case True
    with ys yne ylast show ?thesis by (simp add: base_password_def Let_def)
  next
    case False
    with e have "take 3 extra \<noteq> []" "\<not> is_upper (last (take 3 extra))" by simp_all
    with False ys show ?thesis by (simp add: base_password_def Let_def js_substring_0)
  qed
qed

lemma padded_last:
  assumes "pw \<noteq> []" "\<not> is_upper (last pw)"
  shows "\<not> is_upper (last (fst (pad_digits draw n k pw)))"
proof -
  obtain ds where ds: "fst (pad_digits draw n k pw) = pw @ ds" and dig: "\<forall>c\<in>set ds. \<exists>d<10. c = digit_char d"
    using pad_digits_prefix by blast
  show ?thesis
  proof (cases "ds = []")
    case False
    then have "last ds \<in> set ds" by simp
    with dig have "\<exists>d<10. last ds = digit_char d" by blast
    with False ds show ?thesis using digit_char_not_alpha by auto
  qed (use ds assms in simp)
qed

lemma derive_password_classes:
  assumes "rng_ok rng"
  shows "12 \<le> length (derive_password rng year extra u1 u2) \<and>
         has_lower (derive_password rng year extra u1 u2) \<and> has_digit (derive_password rng year extra u1 u2) \<and>
         has_special (derive_password rng year extra u1 u2)"
proof -
  obtain pw k where pk: "pad_digits (\<lambda>j. rng j 10) 12 1 (base_password rng year extra u1 u2) = (pw, k)" by fastforce
  then have "12 \<le> length pw" using pad_digits_long [of 12 "\<lambda>j. rng j 10" 1] by (metis fst_conv)
  then have "12 \<le> length (fst (ensureComplexity rng k pw))"
    using length_ensureComplexity [OF assms, of pw k] by linarith
  then show ?thesis
    using ensureComplexity_lower_digit_special [OF assms, of k pw] pk by (simp add: derive_password_def)
qed

lemma derive_password_upper:
  assumes "rng_ok rng" "extra = [] \<or> \<not> is_upper (last (take 3 extra))"
  shows "has_upper (derive_password rng year extra u1 u2)"
proof -
  obtain pw k where pk: "pad_digits (\<lambda>j. rng j 10) 12 1 (base_password rng year extra u1 u2) = (pw, k)" by fastforce
  then have "12 \<le> length pw" using pad_digits_long [of 12 "\<lambda>j. rng j 10" 1] by (metis fst_conv)
  moreover have "\<not> is_upper (last pw)"
    using padded_last [of "base_password rng year extra u1 u2" "\<lambda>j. rng j 10" 12 1] base_password_last [OF assms(2)] pk
    by (metis fst_conv)
  ultimately show ?thesis
    using ensureComplexity_four [OF assms(1), of pw k] pk by (simp add: derive_password_def)
qed

lemma ensureComplexity_ne: "fst (ensureComplexity rng k s) \<noteq> []"
proof -
  obtain t j where t: "fix_digit rng (fix_lower (fix_upper s), k) = (t, j)" by fastforce
  have "length (fix_lower (fix_upper s)) = max 1 (length s)"
    by (simp add: length_fix_lower length_fix_upper)
  moreover obtain ds where "t = fix_lower (fix_upper s) @ ds"
    using fix_digit_eq [of rng "fix_lower (fix_upper s)" k] t by auto
  ultimately have "t \<noteq> []" by auto
  with t show ?thesis by (auto simp: ensureComplexity_unfold fix_special_def)
qed

lemma derive_password_ne: "derive_password rng year extra u1 u2 \<noteq> []"
  by (simp add: derive_password_def split_def Let_def ensureComplexity_ne)

lemma validateAnswers_fail: "\<not> fst (validateAnswers f p) \<Longrightarrow> snd (validateAnswers f p) = p"
  by (auto simp: validateAnswers_def split: option.splits if_splits)

lemma validateAnswers_ok:
  "answer1 f = Some a1 \<Longrightarrow> answer2 f = Some a2 \<Longrightarrow> js_trim a1 \<noteq> [] \<Longrightarrow> js_trim a2 \<noteq> [] \<Longrightarrow>
   validateAnswers f p = (True, p\<lparr>userAnswers := Some (\<lparr>answer_text = js_trim a1, answer_type = q1 f\<rparr>,
                                                    \<lparr>answer_text = js_trim a2, answer_type = q2 f\<rparr>)\<rparr>)"
  by (simp add: validateAnswers_def)

subsection \<open>Properties of the generated password\<close>

text \<open>
  C1 (policy of the signup password): with a well-behaved random source the password
  \<open>generatePassword\<close> derives has at least twelve characters and at least three of the
  four character classes, whatever the answers, year and extra characters.
\<close>

theorem derive_password_policy:
  "rng_ok rng \<Longrightarrow> 12 \<le> length (derive_password rng year extra u1 u2) \<and> 3 \<le> class_count (derive_password rng year extra u1 u2)"
  using derive_password_classes class_count_ge3 by blast

theorem derive_password_policy_witness:
  "rng_ok (\<lambda>i m. 0) \<and> 12 \<le> length (derive_password (\<lambda>i m. 0) 2025 '''' \<lparr>answer_text = ''Rex'', answer_type = ''pet''\<rparr> \<lparr>answer_text = ''Boston'', answer_type = ''city''\<rparr>)"
  using derive_password_policy [OF rng_ok_const0] by blast

text \<open>
  C2 (all four classes): when the extra characters are empty or their last kept
  character is not an upper-case letter, the password has all four classes and the
  page's strength indicator shows it as strong.
\<close>

theorem derive_password_four_classes:
  "rng_ok rng \<Longrightarrow> extra = [] \<or> \<not> is_upper (last (take 3 extra)) \<Longrightarrow>
   class_count (derive_password rng year extra u1 u2) = 4 \<and> updateStrengthIndicator (derive_password rng year extra u1 u2) = Strong"
  using derive_password_classes [of rng year extra u1 u2] derive_password_upper [of rng extra year u1 u2]
  by (simp add: class_count_4 updateStrengthIndicator_def strength_score_def length_points_def class_count_def)

theorem derive_password_four_classes_witness:
  "class_count (derive_password (\<lambda>i m. 0) 2025 '''' \<lparr>answer_text = ''Rex'', answer_type = ''pet''\<rparr> \<lparr>answer_text = ''Boston'', answer_type = ''city''\<rparr>) = 4"
  using derive_password_four_classes [OF rng_ok_const0, of "''''"] by blast

text \<open>
  C3 (when ensureComplexity loses the upper-case letter): the result of \<open>ensureComplexity\<close> has no upper-case letter exactly when the input's only upper-case letter is its last character and it has no lower-case letter (the lower-case fix overwrites that character), or the input has no upper-case letter and at most one character (the \<open>A\<close> the upper-case fix puts first is then the character the lower-case fix overwrites).
\<close>

theorem ensureComplexity_loses_upper:
  "\<not> has_upper (fst (ensureComplexity rng k s)) \<longleftrightarrow>
     (has_upper s \<and> \<not> has_upper (butlast s) \<and> \<not> has_lower s) \<or> (\<not> has_upper s \<and> length s \<le> 1)"
proof (cases "has_upper s")
  case True
  then show ?thesis using ensureComplexity_has_upper [of rng k s] by (auto simp: fix_upper_cases)
next
  case False
  then have fu: "fix_upper s = CHR ''A'' # drop 1 s" by (simp add: fix_upper_cases)
  have d: "drop 1 s = [] \<longleftrightarrow> length s \<le> 1" by simp
  have h: "has_lower (CHR ''A'' # drop 1 s) \<or> has_upper (butlast (CHR ''A'' # drop 1 s)) \<longleftrightarrow> \<not> length s \<le> 1"
    by (cases "drop 1 s") (use d in \<open>auto simp: upper_A is_lower_def\<close>)
  show ?thesis using ensureComplexity_has_upper [of rng k s, unfolded fu] h False by blast
qed
theorem ensureComplexity_loses_upper_witness:
  "\<not> has_upper (fst (ensureComplexity (\<lambda>i m. 0) 0 ''12C''))"
  using ensureComplexity_loses_upper [of "\<lambda>i m. 0" 0 "''12C''"]
  by (simp add: has_class_defs is_upper_def is_lower_def)
text \<open>
  C4 (ensureComplexity is the identity on compliant strings): a string with all four
  classes is returned unchanged and no random number is drawn.
\<close>

theorem ensureComplexity_idempotent:
  "has_upper s \<Longrightarrow> has_lower s \<Longrightarrow> has_digit s \<Longrightarrow> has_special s \<Longrightarrow> ensureComplexity rng k s = (s, k)"
  by (simp add: ensureComplexity_unfold fix_upper_cases fix_lower_cases fix_digit_def fix_special_def)

theorem ensureComplexity_idempotent_witness:
  "has_upper ''Ab1!'' \<and> has_lower ''Ab1!'' \<and> has_digit ''Ab1!'' \<and> has_special ''Ab1!'' \<and>
   ensureComplexity (\<lambda>i m. 0) 0 ''Ab1!'' = (''Ab1!'', 0)"
proof -
  have h: "has_upper ''Ab1!''" "has_lower ''Ab1!''" "has_digit ''Ab1!''" "has_special ''Ab1!''"
    by (simp_all add: has_class_defs is_upper_def is_lower_def is_digit_def is_special_def SPECIAL_CHARS_def)
  show ?thesis using h ensureComplexity_idempotent [OF h] by simp
qed

text \<open>
  C5 (rejection): when \<open>validateAnswers\<close> fails, \<open>generatePassword\<close> changes nothing
  but the alert, which reports the error.
\<close>

theorem generatePassword_rejects:
  "\<not> fst (validateAnswers f p) \<Longrightarrow>
   generatePassword rng year f p = p\<lparr>alert := Some (''Please answer both security questions'', ''error'')\<rparr>"
  using validateAnswers_fail [of f p] by (simp add: generatePassword_def split_def)

theorem generatePassword_rejects_witness:
  "\<not> fst (validateAnswers \<lparr>q1 = ''pet'', answer1 = Some ''Rex'', q2 = ''city'', answer2 = None, extraChars = []\<rparr> signup_page_init) \<and>
   generatePassword (\<lambda>i m. 0) 2025 \<lparr>q1 = ''pet'', answer1 = Some ''Rex'', q2 = ''city'', answer2 = None, extraChars = []\<rparr> signup_page_init =
     signup_page_init\<lparr>alert := Some (''Please answer both security questions'', ''error'')\<rparr>"
proof -
  have h: "\<not> fst (validateAnswers \<lparr>q1 = ''pet'', answer1 = Some ''Rex'', q2 = ''city'', answer2 = None, extraChars = []\<rparr> signup_page_init)"
    by (simp add: validateAnswers_def)
  show ?thesis using h generatePassword_rejects [OF h] by blast
qed

text \<open>
  C6 (success): with both answers present and non-blank after trimming, the page's
  \<open>currentPassword\<close> is the derived password of the trimmed answers, it is shown, and
  the controls are enabled.
\<close>

theorem generatePassword_stores:
  assumes "answer1 f = Some a" "answer2 f = Some b" "js_trim a \<noteq> []" "js_trim b \<noteq> []"
  shows "currentPassword (generatePassword rng year f p) =
           derive_password rng year (extraChars f) \<lparr>answer_text = js_trim a, answer_type = q1 f\<rparr> \<lparr>answer_text = js_trim b, answer_type = q2 f\<rparr>
         \<and> generated_text (generatePassword rng year f p) = currentPassword (generatePassword rng year f p)
         \<and> controls_enabled (generatePassword rng year f p)"
  by (simp add: generatePassword_def validateAnswers_ok [OF assms] Let_def)

theorem generatePassword_stores_witness:
  "js_trim '' Rex '' = ''Rex'' \<and> js_trim ''Boston'' = ''Boston'' \<and>
   currentPassword (generatePassword (\<lambda>i m. 0) 2025 \<lparr>q1 = ''pet'', answer1 = Some '' Rex '', q2 = ''city'', answer2 = Some ''Boston'', extraChars = []\<rparr> signup_page_init) =
   derive_password (\<lambda>i m. 0) 2025 [] \<lparr>answer_text = ''Rex'', answer_type = ''pet''\<rparr> \<lparr>answer_text = ''Boston'', answer_type = ''city''\<rparr>"
proof -
  have t: "js_trim '' Rex '' = ''Rex''" "js_trim ''Boston'' = ''Boston''"
    by (simp_all add: js_trim_def js_ws_def)
  have "js_trim '' Rex '' \<noteq> []" "js_trim ''Boston'' \<noteq> []" using t by simp_all
  with generatePassword_stores [where f = "\<lparr>q1 = ''pet'', answer1 = Some '' Rex '', q2 = ''city'', answer2 = Some ''Boston'', extraChars = []\<rparr>"
      and a = "'' Rex ''" and b = "''Boston''" and rng = "\<lambda>i m. 0" and year = 2025 and p = signup_page_init] t
  show ?thesis by simp
qed

end
