(* ===== verification/AuthSession.thy ===== *)
theory AuthSession
  imports CharClasses
begin

text \<open>
  The utilities of auth.js that work on single values and on \<open>sessionStorage\<close>:
  \<open>sanitizeInput\<close>, \<open>generateHint\<close>, \<open>generateId\<close> and the session functions
  \<open>setSession\<close>, \<open>getSession\<close>, \<open>clearSession\<close>. \<open>sessionStorage\<close> is a record with
  one field per key the pages use: auth.js writes \<open>mempass_session\<close>, login.js writes
  \<open>mempass_logged_in\<close> and \<open>mempass_user_email\<close>. Dates are milliseconds since the epoch:
  \<open>toISOString()\<close> and \<open>new Date(iso)\<close> round-trip at that precision.
\<close>

subsection \<open>Input sanitising\<close>

text \<open>An argument of unknown JavaScript type: \<open>typeof input === 'string'\<close> or not.\<close>

datatype js_arg = JsString string | JsOther

text \<open>The class \<open>/[<>"'`;=]/\<close>.\<close>

definition UNSAFE_CHARS :: string where
  "UNSAFE_CHARS = ''<>\"'`;=''"

definition sanitizeInput :: "js_arg \<Rightarrow> string" where
  "sanitizeInput input =
     (case input of
        JsOther \<Rightarrow> []
      | JsString s \<Rightarrow> js_substring (js_trim (filter (\<lambda>c. c \<notin> set UNSAFE_CHARS) s)) 0 100)"

subsection \<open>Answer hints\<close>

text \<open>
  One hint: \<open>answer.charAt(0) + '*'.repeat(Math.max(0, answer.length - 2)) +
  answer.charAt(answer.length - 1)\<close>. \<open>generateHint\<close> is the \<open>forEach\<close> over the
  answers (the \<open>answer\<close> fields of \<open>Object.values(answers)\<close>, in order) that pushes the
  hint of every answer longer than two characters.
\<close>

definition hint :: "string \<Rightarrow> string" where
  "hint answer =
     js_charAt answer 0 @ replicate (nat (max 0 (int (length answer) - 2))) (CHR ''*'') @
     js_charAt answer (length answer - 1)"

fun generateHint :: "string list \<Rightarrow> string list" where
  "generateHint [] = []"
| "generateHint (answer # answers) =
     (if 2 < length answer then hint answer # generateHint answers else generateHint answers)"

subsection \<open>Identifiers\<close>

text \<open>
  \<open>'uid_' + Date.now() + '_' + Math.random().toString(36).substr(2, 9)\<close>; the base-36
  rendering of the random number, \<open>"0."\<close> and its digits, is the parameter \<open>r36\<close>.
\<close>

definition generateId :: "ms \<Rightarrow> string \<Rightarrow> string" where
  "generateId now r36 = ''uid_'' @ dec_string (nat now) @ ''_'' @ js_substr r36 2 9"

subsection \<open>Sessions\<close>

text \<open>The fields of \<open>userData\<close> that \<open>setSession\<close> reads; a signup account extends it.\<close>

record user_ref =
  email :: string
  username :: string

record session_data =
  userId :: string
  session_email :: string
  session_username :: string
  loggedInAt :: ms
  expiresAt :: ms

record session_storage =
  mempass_session :: "session_data option"
  mempass_logged_in :: "string option"
  mempass_user_email :: "string option"

definition session_storage_empty :: session_storage where
  "session_storage_empty = \<lparr>mempass_session = None, mempass_logged_in = None, mempass_user_email = None\<rparr>"

definition SESSION_LIFETIME :: ms where
  "SESSION_LIFETIME = 24 * 60 * 60 * 1000"

definition setSession ::
  "string \<Rightarrow> 'a user_ref_scheme \<Rightarrow> ms \<Rightarrow> session_storage \<Rightarrow> session_data \<times> session_storage" where
  "setSession r36 userData now ss =
     (let sessionData = \<lparr>userId = generateId now r36, session_email = email userData,
                         session_username = username userData, loggedInAt = now,
                         expiresAt = now + SESSION_LIFETIME\<rparr>
      in (sessionData, ss\<lparr>mempass_session := Some sessionData\<rparr>))"

definition clearSession :: "session_storage \<Rightarrow> session_storage" where
  "clearSession ss = ss\<lparr>mempass_session := None\<rparr>"

definition getSession :: "ms \<Rightarrow> session_storage \<Rightarrow> session_data option \<times> session_storage" where
  "getSession now ss =
     (case mempass_session ss of
        None \<Rightarrow> (None, ss)
      | Some sessionData \<Rightarrow>
          if expiresAt sessionData < now then (None, clearSession ss) else (Some sessionData, ss))"

subsection \<open>Facts: sanitising\<close>

lemma set_sanitizeInput: "set (sanitizeInput x) \<subseteq> {c. c \<notin> set UNSAFE_CHARS}"
proof (cases x)
  case (JsString s)
  have "set (take 100 (js_trim (filter (\<lambda>c. c \<notin> set UNSAFE_CHARS) s))) \<subseteq> set (filter (\<lambda>c. c \<notin> set UNSAFE_CHARS) s)"
    using set_js_trim set_take_subset by (metis subset_trans)
  with JsString show ?thesis by (auto simp: sanitizeInput_def js_substring_0)
qed (simp add: sanitizeInput_def)

lemma sanitizeInput_String: "sanitizeInput (JsString s) = take 100 (js_trim (filter (\<lambda>c. c \<notin> set UNSAFE_CHARS) s))"
  by (simp add: sanitizeInput_def js_substring_0)

lemma length_sanitizeInput: "length (sanitizeInput x) \<le> 100"
  by (cases x) (simp_all add: sanitizeInput_def js_substring_0)

lemma js_trim_take_hd: "js_trim s = [] \<or> \<not> js_ws (hd (take n (js_trim s))) \<or> n = 0"
  using js_trim_ends [of s] by (cases n; cases "js_trim s") auto

text \<open>
  C18 (sanitised input is safe and bounded): the result of \<open>sanitizeInput\<close> contains none of the characters of \<open>/[<>"'`;=]/\<close>, has at most 100 characters and does not start with white space; a non-string argument gives the empty string.
\<close>

theorem sanitizeInput_safe:
  "set (sanitizeInput x) \<inter> set UNSAFE_CHARS = {} \<and> length (sanitizeInput x) \<le> 100 \<and>
   (sanitizeInput x = [] \<or> \<not> js_ws (hd (sanitizeInput x))) \<and> sanitizeInput JsOther = []"
proof -
  have o: "sanitizeInput JsOther = []" by (simp add: sanitizeInput_def)
  show ?thesis
  proof (cases x)
    case (JsString s)
    then show ?thesis using set_sanitizeInput [of x] js_trim_take_hd [of _ 100] o
      by (auto simp: sanitizeInput_String)
  qed (simp add: o)
qed

text \<open>
  C19 (the cut comes after the trim): \<open>sanitizeInput\<close> trims before it cuts to 100 characters, so its result ends in white space, and is changed by one more \<open>trim()\<close>, exactly when the trimmed and filtered input is longer than 100 characters and its hundredth character is white space.
\<close>

theorem sanitizeInput_trailing_ws:
  "js_trim (sanitizeInput (JsString s)) = sanitizeInput (JsString s) \<longleftrightarrow>
   length (js_trim (filter (\<lambda>c. c \<notin> set UNSAFE_CHARS) s)) \<le> 100 \<or>
   \<not> js_ws (js_trim (filter (\<lambda>c. c \<notin> set UNSAFE_CHARS) s) ! 99)"
proof -
  define t where "t = js_trim (filter (\<lambda>c. c \<notin> set UNSAFE_CHARS) s)"
  have e: "t = [] \<or> \<not> js_ws (hd t) \<and> \<not> js_ws (last t)" unfolding t_def by (rule js_trim_ends)
  have v: "sanitizeInput (JsString s) = take 100 t" by (simp add: sanitizeInput_String t_def)
  show ?thesis
  proof (cases "length t \<le> 100")
    case True
    then show ?thesis using e unfolding v t_def [symmetric] by (simp add: js_trim_fixed)
  next
    case False
    then have l: "length (take 100 t) = 100" by simp
    then have "take 100 t \<noteq> []" "hd (take 100 t) = hd t" by (auto simp: hd_take)
    moreover have "last (take 100 t) = t ! 99"
      using l last_conv_nth [of "take 100 t"] by fastforce
    ultimately show ?thesis using e False unfolding v t_def [symmetric] by (simp add: js_trim_fixed)
  qed
qed

theorem sanitizeInput_trailing_ws_witness:
  "js_trim (sanitizeInput (JsString (replicate 99 (CHR ''a'') @ '' b''))) \<noteq> sanitizeInput (JsString (replicate 99 (CHR ''a'') @ '' b''))"
  using sanitizeInput_trailing_ws [of "replicate 99 (CHR ''a'') @ '' b''"]
  by (simp add: UNSAFE_CHARS_def js_trim_def js_ws_def numeral_eq_Suc nth_append)

subsection \<open>Facts: hints\<close>

lemma generateHint_filter: "generateHint answers = map hint (filter (\<lambda>a. 2 < length a) answers)"
  by (induction answers) simp_all

lemma hint_long:
  "2 < length a \<Longrightarrow> hint a = hd a # replicate (length a - 2) (CHR ''*'') @ [last a]"
  by (cases a) (simp_all add: hint_def js_charAt_def last_conv_nth nat_diff_distrib')

text \<open>
  C20 (what a hint reveals): \<open>generateHint\<close> gives one hint per answer longer than two characters, in order, and each hint is the answer's first character, a star for every inner character and its last character.
\<close>

theorem generateHint_reveals:
  "list_all2 (\<lambda>a h. h = hd a # replicate (length a - 2) (CHR ''*'') @ [last a])
     (filter (\<lambda>a. 2 < length a) answers) (generateHint answers)"
  by (induction answers) (simp_all add: hint_long)

theorem hint_three_letters:
  "hint ''Rex'' = ''R*x'' \<and> generateHint [''Rex'', ''Al'', ''Boston''] = [''R*x'', ''B****n'']"
  by (simp add: hint_def js_charAt_def numeral_eq_Suc)

subsection \<open>Facts: identifiers\<close>

lemma generateId_split: "takeWhile (\<lambda>c. c \<noteq> CHR ''_'') (drop 4 (generateId now r36)) = dec_string (nat now)"
proof -
  have "\<forall>c\<in>set (dec_string (nat now)). c \<noteq> CHR ''_''"
  proof
    fix c assume "c \<in> set (dec_string (nat now))"
    then obtain d where "d < 10" "c = digit_char d" using dec_string_digits by blast
    then have "(of_char c :: nat) < 58" by (simp add: of_char_digit_char)
    then show "c \<noteq> CHR ''_''" by auto
  qed
  then show ?thesis by (simp add: generateId_def takeWhile_append2)
qed

theorem generateId_distinct:
  "0 \<le> t1 \<Longrightarrow> 0 \<le> t2 \<Longrightarrow> t1 \<noteq> t2 \<Longrightarrow> generateId t1 r1 \<noteq> generateId t2 r2"
  by (metis generateId_split dec_string_inj nat_eq_iff2)

theorem generateId_distinct_witness:
  "generateId 1000 ''0.abc'' \<noteq> generateId 1001 ''0.abc''"
  by (rule generateId_distinct) simp_all

subsection \<open>Facts: sessions\<close>

lemma getSession_cases:
  "getSession now ss =
     (if \<exists>sd. mempass_session ss = Some sd \<and> \<not> expiresAt sd < now then (mempass_session ss, ss)
      else (None, clearSession ss))"
  by (cases "mempass_session ss") (auto simp: getSession_def clearSession_def)

text \<open>
  C22 (reading a session keeps the storage consistent): after \<open>getSession\<close>, \<open>mempass_session\<close> holds exactly the session it returned (an expired one is removed), and the keys login.js writes are untouched.
\<close>

theorem getSession_consistent:
  "mempass_session (snd (getSession now ss)) = fst (getSession now ss) \<and>
   mempass_logged_in (snd (getSession now ss)) = mempass_logged_in ss \<and>
   mempass_user_email (snd (getSession now ss)) = mempass_user_email ss"
  by (simp add: getSession_cases clearSession_def)

text \<open>
  C21 (session round trip): after \<open>setSession\<close> at time t, \<open>getSession\<close> returns the stored session, with the user's email and username, at every time up to and including t + 24 h, and nothing afterwards.
\<close>

theorem setSession_getSession:
  "fst (getSession now (snd (setSession r36 userData t ss))) =
     (if now \<le> t + SESSION_LIFETIME then Some (fst (setSession r36 userData t ss)) else None) \<and>
   session_email (fst (setSession r36 userData t ss)) = email userData \<and>
   session_username (fst (setSession r36 userData t ss)) = username userData"
  by (simp add: getSession_def setSession_def Let_def)

theorem session_expiry_boundary:
  "fst (getSession (t + 86400000) (snd (setSession r36 userData t ss))) \<noteq> None \<and>
   fst (getSession (t + 86400001) (snd (setSession r36 userData t ss))) = None"
  by (simp add: getSession_def setSession_def SESSION_LIFETIME_def Let_def)

end
