(* ===== verification/Accounts.thy ===== *)
theory Accounts
  imports Signup AuthSession
begin

text \<open>
  The account flow across the pages: the signup form's submit handler (signup.js), which
  stores the account in \<open>localStorage\<close>, and login.js, whose submit handler checks a
  login against it and whose \<open>DOMContentLoaded\<close> handler restores a remembered email.
  \<open>localStorage\<close> is a map from keys to the values the pages store in it: the JSON of
  the account (\<open>UserRecord\<close>), a plain string (\<open>Text\<close>) and an ISO date
  (\<open>Date\<close>, in milliseconds). \<open>browser\<close> is the state a sequence of page events
  works on: the signup page, \<open>localStorage\<close> and \<open>sessionStorage\<close>;
  \<open>page_op\<close> names those events and \<open>page_step\<close> runs one.
\<close>

subsection \<open>Stored values\<close>

text \<open>The \<open>userData\<close> object signup.js stores: a \<open>user_ref\<close> extended by the rest.\<close>

record account = user_ref +
  password :: string
  answers :: "(user_answer \<times> user_answer) option"
  createdAt :: ms

datatype ls_value = UserRecord account | Text string | Date ms

type_synonym local_storage = "string \<rightharpoonup> ls_value"

text \<open>
  What \<open>JSON.parse(storedUser)\<close> gives the pages, as far as they read it. The pages read
  \<open>userData.email\<close>, \<open>userData.username\<close> and \<open>userData.password\<close>, compare them with
  \<open>!==\<close> against strings and store \<open>userData.email\<close> with \<open>setItem\<close>, so a field is a
  string (\<open>JString\<close>) or another value with the text \<open>String(v)\<close> gives it
  (\<open>JOther\<close>: \<open>undefined\<close> for an absent field, \<open>null\<close>, a number); the hint reads
  \<open>userData.answers.q1.type\<close>, \<open>userData.answers.q2.type\<close> and
  \<open>userData.password.length\<close> as template text, \<open>None\<close> when the access throws.
  \<open>JsonThrows\<close> is a \<open>SyntaxError\<close> of \<open>JSON.parse\<close>, or the value \<open>null\<close>, whose
  first property access throws.
\<close>

datatype json_field = JString string | JOther string

record json_user =
  j_email :: json_field
  j_username :: json_field
  j_password :: json_field
  j_types :: "(string \<times> string) option"
  j_password_length :: "string option"

datatype json_read = JsonThrows | JsonObject json_user

text \<open>\<open>a !== b\<close> for a string \<open>a\<close>: only a string with the same characters is equal.\<close>

primrec strict_eq :: "string \<Rightarrow> json_field \<Rightarrow> bool" where
  "strict_eq s (JString t) = (s = t)"
| "strict_eq s (JOther t) = False"

primrec field_text :: "json_field \<Rightarrow> string" where
  "field_text (JString s) = s"
| "field_text (JOther t) = t"

text \<open>\<open>JSON.parse(JSON.stringify(userData))\<close> for the object signup.js stores.\<close>

definition account_json :: "account \<Rightarrow> json_user" where
  "account_json a =
     \<lparr>j_email = JString (email a), j_username = JString (username a), j_password = JString (password a),
      j_types = map_option (\<lambda>(u1, u2). (answer_type u1, answer_type u2)) (answers a),
      j_password_length = Some (dec_string (length (password a)))\<rparr>"

text \<open>
  \<open>JSON.parse(localStorage.getItem('mempass_user'))\<close> as login.js uses it. \<open>json\<close> is
  \<open>JSON.parse\<close> on a stored string: a plain string there (the password that
  \<open>signup_submit\<close> writes under \<open>mempass_user\<close> for the email \<open>user\<close>) is parsed as JSON
  text and may throw or give any value. An ISO date string is not JSON text
  (\<open>2025-...\<close> stops at the \<open>-\<close>) and throws.
\<close>

definition parse_user :: "(string \<Rightarrow> json_read) \<Rightarrow> ls_value \<Rightarrow> json_read" where
  "parse_user json v =
     (case v of UserRecord a \<Rightarrow> JsonObject (account_json a) | Text s \<Rightarrow> json s | Date d \<Rightarrow> JsonThrows)"

text \<open>
  \<open>localStorage.getItem(key)\<close> read through the pages' \<open>if (!x)\<close> tests: an absent key
  and the empty string are both falsy.
\<close>

definition stored_item :: "local_storage \<Rightarrow> string \<Rightarrow> ls_value option" where
  "stored_item ls key = (case ls key of Some (Text []) \<Rightarrow> None | x \<Rightarrow> x)"

subsection \<open>The signup form's submit handler\<close>

definition signup_submit ::
  "string \<Rightarrow> string \<Rightarrow> string \<Rightarrow> ms \<Rightarrow> signup_page \<Rightarrow> local_storage \<Rightarrow> signup_page \<times> local_storage" where
  "signup_submit email_in username_in confirmPassword now p ls =
     (if confirmPassword \<noteq> currentPassword p
      then (p\<lparr>alert := Some (''Passwords do not match. Please copy and paste the generated password.'', ''error'')\<rparr>, ls)
      else
        let userData = \<lparr>email = email_in, username = username_in, password = currentPassword p,
                        answers = userAnswers p, createdAt = now\<rparr>;
            ls1 = ls(''mempass_user'' \<mapsto> UserRecord userData);
            ls2 = ls1(''mempass_'' @ email_in \<mapsto> Text (currentPassword p))
        in (p\<lparr>alert := Some (''Account created successfully! Redirecting to login...'', ''success'')\<rparr>, ls2))"

subsection \<open>The login form's submit handler\<close>

datatype login_outcome = NoAccount | Unreadable | InvalidCredentials | LoggedIn

primrec login_message :: "login_outcome \<Rightarrow> (string \<times> string) option" where
  "login_message NoAccount = Some (''No account found. Please sign up first.'', ''error'')"
| "login_message Unreadable = None"
| "login_message InvalidCredentials = Some (''Invalid email/username or password'', ''error'')"
| "login_message LoggedIn = Some (''Login successful!'', ''success'')"

record browser =
  page :: signup_page
  local :: local_storage
  session :: session_storage

text \<open>
  \<open>expiry\<close> is the date \<open>expiry.setDate(expiry.getDate() + 30)\<close> computes from the
  current date: thirty calendar days later in local time.
\<close>

definition login_submit ::
  "(string \<Rightarrow> json_read) \<Rightarrow> string \<Rightarrow> string \<Rightarrow> bool \<Rightarrow> ms \<Rightarrow> browser \<Rightarrow> login_outcome \<times> browser" where
  "login_submit json loginEmail loginPassword rememberMe expiry b =
     (let identifier = js_trim loginEmail in
      case stored_item (local b) ''mempass_user'' of
        None \<Rightarrow> (NoAccount, b)
      | Some v \<Rightarrow>
          (case parse_user json v of
             JsonThrows \<Rightarrow> (Unreadable, b)
           | JsonObject userData \<Rightarrow>
               if (\<not> strict_eq identifier (j_email userData) \<and> \<not> strict_eq identifier (j_username userData)) \<or>
                  \<not> strict_eq loginPassword (j_password userData)
               then (InvalidCredentials, b)
               else
                 let ss = (session b)\<lparr>mempass_logged_in := Some ''true'',
                                      mempass_user_email := Some (field_text (j_email userData))\<rparr>;
                     ls = (if rememberMe then (local b)(''mempass_remember'' \<mapsto> Date expiry) else local b)
                 in (LoggedIn, b\<lparr>session := ss, local := ls\<rparr>)))"

subsection \<open>Restoring a remembered login\<close>

text \<open>
  The \<open>DOMContentLoaded\<close> handler: the email to prefill (with the box checked), and the
  storage, from which an expired remember date is removed. \<open>new Date(rememberExpiry)\<close>
  gives back the instant login.js stored with \<open>toISOString()\<close>; for a plain string
  \<open>date\<close> is the browser's date parser, \<open>None\<close> for an invalid date, for which
  \<open>now < expiryDate\<close> is false. No page stores an account under \<open>mempass_remember\<close>;
  its JSON text is taken as an invalid date. The prefilled text is
  \<open>String(userData.email)\<close> (the input's setter turns \<open>null\<close> into the empty
  string, a conversion of the DOM that is not modelled).
\<close>

definition remember_date :: "(string \<Rightarrow> ms option) \<Rightarrow> ls_value \<Rightarrow> ms option" where
  "remember_date date v = (case v of Date e \<Rightarrow> Some e | Text s \<Rightarrow> date s | UserRecord a \<Rightarrow> None)"

definition restore_login ::
  "(string \<Rightarrow> json_read) \<Rightarrow> (string \<Rightarrow> ms option) \<Rightarrow> ms \<Rightarrow> browser \<Rightarrow> string option \<times> browser" where
  "restore_login json date now b =
     (case stored_item (local b) ''mempass_remember'' of
        None \<Rightarrow> (None, b)
      | Some v \<Rightarrow>
          if (case remember_date date v of Some e \<Rightarrow> now < e | None \<Rightarrow> False)
          then (case stored_item (local b) ''mempass_user'' of
                  None \<Rightarrow> (None, b)
                | Some u \<Rightarrow>
                    (case parse_user json u of
                       JsonThrows \<Rightarrow> (None, b)
                     | JsonObject userData \<Rightarrow> (Some (field_text (j_email userData)), b)))
          else (None, b\<lparr>local := (local b)(''mempass_remember'' := None)\<rparr>))"

subsection \<open>The password hint\<close>

text \<open>
  login.js \<open>showPasswordHint\<close>: the list it writes into \<open>#hintList\<close>, one string per
  item, or the alert, or \<open>HintError\<close> for an exception while the list is built
  (\<open>JSON.parse\<close>, or \<open>userData.answers.q1\<close> of a value without answers).
  \<open>option_text sel v\<close> is the text of \<open>#sel option[value=v]\<close> on the login page, and
  \<open>x?.textContent || 'Unknown question'\<close> falls back on a missing or empty text.
\<close>

datatype hint_view = HintAlert string | HintError | HintItems "string list"

definition text_or_unknown :: "string option \<Rightarrow> string" where
  "text_or_unknown t = (case t of Some s \<Rightarrow> if s = [] then ''Unknown question'' else s | None \<Rightarrow> ''Unknown question'')"

definition showPasswordHint ::
  "(string \<Rightarrow> json_read) \<Rightarrow> (string \<Rightarrow> string \<Rightarrow> string option) \<Rightarrow> browser \<Rightarrow> hint_view" where
  "showPasswordHint json option_text b =
     (case stored_item (local b) ''mempass_user'' of
        None \<Rightarrow> HintAlert ''No account found. Please sign up first.''
      | Some v \<Rightarrow>
          (case parse_user json v of
             JsonThrows \<Rightarrow> HintError
           | JsonObject userData \<Rightarrow>
               (case (j_types userData, j_password_length userData) of
                  (Some (t1, t2), Some n) \<Rightarrow>
                    HintItems
                      [''Question 1: '' @ text_or_unknown (option_text ''q1'' t1),
                       ''Question 2: '' @ text_or_unknown (option_text ''q2'' t2),
                       ''Password contains: Uppercase letters, lowercase letters, numbers, and symbols'',
                       ''Password length: '' @ n @ '' characters'']
                | _ \<Rightarrow> HintError)))"

subsection \<open>Page events\<close>

datatype page_op =
    Generate random_source nat signup_form
  | SubmitSignup string string string ms
  | SubmitLogin "string \<Rightarrow> json_read" string string bool ms
  | LoadLogin "string \<Rightarrow> json_read" "string \<Rightarrow> ms option" ms

primrec page_step :: "page_op \<Rightarrow> browser \<Rightarrow> browser" where
  "page_step (Generate rng year f) b = b\<lparr>page := generatePassword rng year f (page b)\<rparr>"
| "page_step (SubmitSignup e u c now) b =
     (let (p, ls) = signup_submit e u c now (page b) (local b) in b\<lparr>page := p, local := ls\<rparr>)"
| "page_step (SubmitLogin json i pw r expiry) b = snd (login_submit json i pw r expiry b)"
| "page_step (LoadLogin json date now) b = snd (restore_login json date now b)"

definition run_ops :: "page_op list \<Rightarrow> browser \<Rightarrow> browser" where
  "run_ops ops b = fold page_step ops b"

definition browser_init :: browser where
  "browser_init = \<lparr>page = signup_page_init, local = Map.empty, session = session_storage_empty\<rparr>"

text \<open>
  The stored account and the per-email copy of its password agree: whenever
  \<open>mempass_user\<close> holds an account, \<open>'mempass_' + email\<close> holds its password.
\<close>

definition account_inv :: "browser \<Rightarrow> bool" where
  "account_inv b =
     (case local b ''mempass_user'' of
        Some (UserRecord a) \<Rightarrow> local b (''mempass_'' @ email a) = Some (Text (password a))
      | _ \<Rightarrow> True)"

text \<open>The events that do not sign up with the email \<open>remember\<close>.\<close>

primrec signup_email_ok :: "page_op \<Rightarrow> bool" where
  "signup_email_ok (Generate rng year f) = True"
| "signup_email_ok (SubmitSignup e u c now) = (e \<noteq> ''remember'')"
| "signup_email_ok (SubmitLogin json i pw r expiry) = True"
| "signup_email_ok (LoadLogin json date now) = True"

text \<open>The invariant strengthened for induction: the stored account's email is not \<open>remember\<close>.\<close>

definition acc_ok :: "browser \<Rightarrow> bool" where
  "acc_ok b = (account_inv b \<and> (case local b ''mempass_user'' of Some (UserRecord a) \<Rightarrow> email a \<noteq> ''remember'' | _ \<Rightarrow> True))"

subsection \<open>Facts: single handlers\<close>

lemma stored_item_UserRecord [simp]: "ls k = Some (UserRecord a) \<Longrightarrow> stored_item ls k = Some (UserRecord a)"
  by (simp add: stored_item_def)

lemma signup_submit_ok:
  "signup_submit e u (currentPassword p) now p ls =
     (p\<lparr>alert := Some (''Account created successfully! Redirecting to login...'', ''success'')\<rparr>,
      ls(''mempass_user'' \<mapsto> UserRecord \<lparr>email = e, username = u, password = currentPassword p,
                                        answers = userAnswers p, createdAt = now\<rparr>,
         ''mempass_'' @ e \<mapsto> Text (currentPassword p)))"
  by (simp add: signup_submit_def Let_def)

lemma signup_submit_mismatch: "c \<noteq> currentPassword p \<Longrightarrow> snd (signup_submit e u c now p ls) = ls"
  by (simp add: signup_submit_def)

lemma login_submit_cases:
  "login_submit json i pw r expiry b =
     (case stored_item (local b) ''mempass_user'' of
        None \<Rightarrow> (NoAccount, b)
      | Some v \<Rightarrow> (case parse_user json v of
          JsonThrows \<Rightarrow> (Unreadable, b)
        | JsonObject a \<Rightarrow>
            if (j_email a = JString (js_trim i) \<or> j_username a = JString (js_trim i)) \<and> j_password a = JString pw
            then (LoggedIn, b\<lparr>session := (session b)\<lparr>mempass_logged_in := Some ''true'',
                                                   mempass_user_email := Some (field_text (j_email a))\<rparr>,
                              local := (if r then (local b)(''mempass_remember'' \<mapsto> Date expiry) else local b)\<rparr>)
            else (InvalidCredentials, b)))"
proof -
  have eq: "strict_eq s f = (f = JString s)" for s f by (cases f) auto
  show ?thesis by (auto simp: login_submit_def Let_def eq split: option.splits json_read.splits)
qed

lemma parse_user_account [simp]: "parse_user json (UserRecord a) = JsonObject (account_json a)"
  by (simp add: parse_user_def)

lemma account_json_fields [simp]:
  "j_email (account_json a) = JString (email a)" "j_username (account_json a) = JString (username a)"
  "j_password (account_json a) = JString (password a)"
  by (simp_all add: account_json_def)

text \<open>
  C23 (an account signs in): after the signup form is submitted with the generated password, a login with that password and the email or the username succeeds, unless the email is \<open>user\<close> or the identifier does not survive \<open>trim()\<close>.
\<close>

theorem signup_then_login:
  assumes "e \<noteq> ''user''" "js_trim i = e \<or> js_trim i = u"
  shows "fst (login_submit json i (currentPassword (page b)) r expiry
               (page_step (SubmitSignup e u (currentPassword (page b)) now) b)) = LoggedIn"
  using assms by (auto simp: signup_submit_ok login_submit_cases)

theorem signup_then_login_witness:
  "fst (login_submit (\<lambda>s. JsonThrows) ''bob'' (currentPassword (page browser_init)) False 0
     (page_step (SubmitSignup ''bob@example.org'' ''bob'' (currentPassword (page browser_init)) 0) browser_init)) = LoggedIn"
  by (rule signup_then_login) (simp_all add: js_trim_def js_ws_def)

text \<open>
  C24 (the email \<open>user\<close> replaces the account): signing up with the email \<open>user\<close> writes the password under \<open>mempass_user\<close>, over the account just stored, so a login succeeds only when \<open>JSON.parse\<close> of the generated password gives an object whose \<open>password\<close> is the password typed and whose \<open>email\<close> or \<open>username\<close> is the identifier.
\<close>

theorem signup_email_user_json:
  assumes "fst (login_submit json i pw r expiry (page_step (SubmitSignup ''user'' u (currentPassword (page b)) now) b)) = LoggedIn"
  shows "\<exists>ju. json (currentPassword (page b)) = JsonObject ju \<and> j_password ju = JString pw \<and>
              (j_email ju = JString (js_trim i) \<or> j_username ju = JString (js_trim i))"
  using assms
  by (auto simp: signup_submit_ok login_submit_cases parse_user_def stored_item_def
           split: list.splits json_read.splits if_splits)

theorem signup_email_user_json_witness:
  "\<exists>ju. (\<lambda>s. JsonObject \<lparr>j_email = JString ''u@X'', j_username = JOther ''undefined'', j_password = JString ''y25'',
                           j_types = None, j_password_length = None\<rparr>) ''{}'' = JsonObject ju \<and>
        j_password ju = JString ''y25'' \<and> (j_email ju = JString (js_trim ''u@X'') \<or> j_username ju = JString (js_trim ''u@X''))"
proof -
  let ?J = "\<lambda>s::string. JsonObject \<lparr>j_email = JString ''u@X'', j_username = JOther ''undefined'', j_password = JString ''y25'',
                           j_types = None, j_password_length = None\<rparr>"
  let ?b = "browser_init\<lparr>page := signup_page_init\<lparr>currentPassword := ''{}''\<rparr>\<rparr>"
  have "fst (login_submit ?J ''u@X'' ''y25'' False 0
          (page_step (SubmitSignup ''user'' ''bob'' (currentPassword (page ?b)) 0) ?b)) = LoggedIn"
    by (simp add: signup_submit_def Let_def login_submit_cases parse_user_def stored_item_def js_trim_def js_ws_def)
  from signup_email_user_json [OF this] show ?thesis by simp
qed

text \<open>
  C25 (failed logins change nothing): every login that does not succeed leaves both storages unchanged.
\<close>

theorem login_failure_unchanged:
  "fst (login_submit json i pw r expiry b) \<noteq> LoggedIn \<Longrightarrow> snd (login_submit json i pw r expiry b) = b"
  by (auto simp: login_submit_cases split: option.splits json_read.splits if_splits)

theorem login_failure_unchanged_witness:
  "snd (login_submit (\<lambda>s. JsonThrows) ''bob'' ''x'' False 0 browser_init) = browser_init"
  by (rule login_failure_unchanged) (simp add: login_submit_def browser_init_def stored_item_def)

text \<open>login.js never calls \<open>AuthUtils.setSession\<close>: a login leaves \<open>mempass_session\<close> as it was.\<close>

lemma login_keeps_auth_session:
  "mempass_session (session (snd (login_submit json i pw r expiry b))) = mempass_session (session b)"
  by (simp add: login_submit_cases split: option.splits json_read.splits)

subsection \<open>Facts: the stored-account invariant\<close>

lemma acc_ok_local: "local b' = local b \<Longrightarrow> acc_ok b' = acc_ok b"
proof -
  assume h: "local b' = local b"
  show ?thesis unfolding acc_ok_def account_inv_def h ..
qed

lemma acc_ok_remember_upd:
  assumes ok: "acc_ok b" and upd: "local b' = (local b)(''mempass_remember'' := x)"
  shows "acc_ok b'"
proof -
  have u: "local b' ''mempass_user'' = local b ''mempass_user''" using upd by simp
  show ?thesis
  proof (cases "local b ''mempass_user''")
    case (Some v)
    show ?thesis
    proof (cases v)
      case (UserRecord a)
      with Some ok have "email a \<noteq> ''remember''" "local b (''mempass_'' @ email a) = Some (Text (password a))"
        by (simp_all add: acc_ok_def account_inv_def)
      moreover from this(1) have "local b' (''mempass_'' @ email a) = local b (''mempass_'' @ email a)"
        using upd by simp
      ultimately show ?thesis using Some UserRecord u by (simp add: acc_ok_def account_inv_def)
    qed (use Some u in \<open>simp_all add: acc_ok_def account_inv_def\<close>)
  qed (use u in \<open>simp add: acc_ok_def account_inv_def\<close>)
qed

lemma login_submit_local:
  "local (snd (login_submit json i pw r expiry b)) = local b \<or>
   local (snd (login_submit json i pw r expiry b)) = (local b)(''mempass_remember'' := Some (Date expiry))"
  unfolding login_submit_cases
  by (auto split: option.split json_read.split)
lemma restore_login_local:
  "local (snd (restore_login json date now b)) = local b \<or>
   local (snd (restore_login json date now b)) = (local b)(''mempass_remember'' := None)"
  unfolding restore_login_def
  by (auto split: option.split json_read.split)

lemma page_step_acc_ok: "signup_email_ok op \<Longrightarrow> acc_ok b \<Longrightarrow> acc_ok (page_step op b)"
proof (cases op)
  case (SubmitSignup e u c now)
  assume ok: "signup_email_ok op" and inv: "acc_ok b"
  show ?thesis
  proof (cases "c = currentPassword (page b)")
    case True
    with SubmitSignup ok show ?thesis
      by (simp add: signup_submit_ok acc_ok_def account_inv_def)
  next
    case False
    with SubmitSignup have l: "local (page_step op b) = local b"
      by (simp add: split_def signup_submit_mismatch)
    from inv show ?thesis unfolding acc_ok_def account_inv_def l .
  qed
next
  case (SubmitLogin json i pw r expiry)
  assume "acc_ok b"
  have "local (page_step op b) = local b \<or>
        local (page_step op b) = (local b)(''mempass_remember'' := Some (Date expiry))"
    using SubmitLogin login_submit_local by simp
  then show ?thesis using \<open>acc_ok b\<close> acc_ok_local acc_ok_remember_upd by blast
next
  case (LoadLogin json date now)
  assume "acc_ok b"
  have "local (page_step op b) = local b \<or> local (page_step op b) = (local b)(''mempass_remember'' := None)"
    using LoadLogin restore_login_local by simp
  then show ?thesis using \<open>acc_ok b\<close> acc_ok_local acc_ok_remember_upd by blast
next
  case (Generate rng year f)
  assume "acc_ok b"
  moreover have "local (page_step op b) = local b" using Generate by simp
  ultimately show ?thesis using acc_ok_local by blast
qed

lemma run_ops_acc_ok: "list_all signup_email_ok ops \<Longrightarrow> acc_ok b \<Longrightarrow> acc_ok (run_ops ops b)"
  by (induction ops arbitrary: b) (simp_all add: run_ops_def page_step_acc_ok)

text \<open>
  C26 (stored copies agree): in every state reached from fresh storages by page events in which no one signs up with the email \<open>remember\<close>, the key \<open>mempass_\<close> + email of the stored account holds its password.
\<close>

theorem account_inv_reachable:
  "list_all signup_email_ok ops \<Longrightarrow> account_inv (run_ops ops browser_init)"
proof -
  assume "list_all signup_email_ok ops"
  moreover have "acc_ok browser_init" by (simp add: acc_ok_def account_inv_def browser_init_def)
  ultimately show ?thesis using run_ops_acc_ok acc_ok_def by blast
qed

theorem account_inv_reachable_witness:
  "account_inv (run_ops [SubmitSignup ''bob@example.org'' ''bob'' '''' 0, SubmitLogin (\<lambda>s. JsonThrows) ''bob'' '''' True 100, LoadLogin (\<lambda>s. JsonThrows) (\<lambda>s. None) 50] browser_init)"
  by (rule account_inv_reachable) simp

text \<open>The invariant fails when the email is \<open>remember\<close>: the remember date overwrites the password copy.\<close>

lemma remember_email_breaks_inv:
  "\<not> account_inv (run_ops [SubmitSignup ''remember'' ''r'' '''' 0, SubmitLogin (\<lambda>s. JsonThrows) ''remember'' '''' True 100] browser_init)"
  by (simp add: run_ops_def browser_init_def signup_page_init_def signup_submit_def Let_def
      login_submit_cases parse_user_def js_trim_def js_ws_def stored_item_def account_inv_def)

text \<open>
  C27 (remember me): after a successful login with the box checked and expiry e, loading the login page before e prefills the email that login stored in the session, and loading it at or after e prefills nothing and removes the remember date.
\<close>

theorem remember_me_restores:
  assumes "fst (login_submit json i pw True e b) = LoggedIn"
  shows "fst (restore_login json date now (snd (login_submit json i pw True e b))) =
           (if now < e then mempass_user_email (session (snd (login_submit json i pw True e b))) else None) \<and>
         local (snd (restore_login json date now (snd (login_submit json i pw True e b)))) ''mempass_remember'' =
           (if now < e then Some (Date e) else None)"
  using assms
  by (auto simp: login_submit_cases restore_login_def remember_date_def stored_item_def
           split: option.splits json_read.splits if_splits list.splits)

theorem remember_me_restores_witness:
  "fst (restore_login (\<lambda>s. JsonThrows) (\<lambda>s. None) 50 (snd (login_submit (\<lambda>s. JsonThrows) ''bob'' '''' True 100
      (run_ops [SubmitSignup ''bob@example.org'' ''bob'' '''' 0] browser_init)))) = Some ''bob@example.org''"
proof -
  let ?b = "run_ops [SubmitSignup ''bob@example.org'' ''bob'' '''' 0] browser_init"
  have l: "fst (login_submit (\<lambda>s. JsonThrows) ''bob'' '''' True 100 ?b) = LoggedIn"
    by (simp add: run_ops_def browser_init_def signup_page_init_def signup_submit_def Let_def
        login_submit_cases js_trim_def js_ws_def stored_item_def)
  have "mempass_user_email (session (snd (login_submit (\<lambda>s. JsonThrows) ''bob'' '''' True 100 ?b))) = Some ''bob@example.org''"
    by (simp add: run_ops_def browser_init_def signup_page_init_def signup_submit_def Let_def
        login_submit_cases js_trim_def js_ws_def stored_item_def)
  then show ?thesis using remember_me_restores [OF l, of "\<lambda>s. None" 50] by simp
qed

end
