(* ===== verification/SignupForm.thy ===== *)
theory SignupForm
  imports Signup
begin

text \<open>
  The signup page as the user drives it (signup.js): the question selects and their
  handlers \<open>updateQuestionInputs\<close> and \<open>addSecondQuestion\<close>, which write HTML into
  \<open>#questionInputs\<close> and \<open>#secondQuestion\<close>; the answer inputs, whose
  \<open>oninput\<close> calls \<open>validateAnswers\<close>; the generate button and \<open>copyPassword\<close>.
  The document is \<open>signup_dom\<close>: the form values the handlers read and the two
  containers' HTML (the templates without the white space between tags). The first select's
  options are in signup.html, which is not among the sources: \<open>q1_text\<close> gives their
  texts, and a value without an option cannot be selected. The second select's options are
  those \<open>getRemainingQuestions\<close> writes.
\<close>

subsection \<open>The question templates\<close>

definition question_inputs_html :: "string \<Rightarrow> string \<Rightarrow> string" where
  "question_inputs_html questionText q1v =
     ''<div class=\"form-group\"><label for=\"answer1\">'' @ questionText @
     ''</label><input type=\"text\" id=\"answer1\" name=\"answer1\" required oninput=\"validateAnswers()\" placeholder=\"Enter your answer\"></div>'' @
     ''<div class=\"form-group\"><label for=\"q2\">Select your second question:</label>'' @
     ''<select id=\"q2\" name=\"q2\" required onchange=\"addSecondQuestion()\"><option value=\"\">Choose another question...</option>'' @
     getRemainingQuestions q1v @ ''</select></div><div id=\"secondQuestion\"></div>''"

definition second_question_html :: "string \<Rightarrow> string" where
  "second_question_html questionText =
     ''<div class=\"form-group\"><label for=\"answer2\">'' @ questionText @
     ''</label><input type=\"text\" id=\"answer2\" name=\"answer2\" required oninput=\"validateAnswers()\" placeholder=\"Enter your answer\"></div>''"

record signup_dom =
  dom_form :: signup_form
  questionInputs :: string
  secondQuestion :: string

definition signup_dom_init :: signup_dom where
  "signup_dom_init =
     \<lparr>dom_form = \<lparr>q1 = [], answer1 = None, q2 = [], answer2 = None, extraChars = []\<rparr>,
      questionInputs = [], secondQuestion = []\<rparr>"

subsection \<open>The select handlers\<close>

text \<open>
  \<open>updateQuestionInputs\<close>: an empty choice clears the container, answer inputs and second
  select included; otherwise the container is rewritten with a fresh answer input and a fresh
  second select. \<open>None\<close> is the \<open>TypeError\<close> of a missing option.
\<close>

definition updateQuestionInputs :: "(string \<Rightarrow> string option) \<Rightarrow> signup_dom \<Rightarrow> signup_dom option" where
  "updateQuestionInputs q1_text d =
     (let v = q1 (dom_form d) in
      if v = [] then
        Some (d\<lparr>questionInputs := [], secondQuestion := [],
                dom_form := (dom_form d)\<lparr>answer1 := None, q2 := [], answer2 := None\<rparr>\<rparr>)
      else case q1_text v of
        None \<Rightarrow> None
      | Some questionText \<Rightarrow>
          Some (d\<lparr>questionInputs := question_inputs_html questionText v, secondQuestion := [],
                  dom_form := (dom_form d)\<lparr>answer1 := Some [], q2 := [], answer2 := None\<rparr>\<rparr>))"

text \<open>\<open>#q2 option[value=v]\<close> among the options \<open>getRemainingQuestions(q1)\<close> wrote.\<close>

definition q2_option_text :: "string \<Rightarrow> string \<Rightarrow> string option" where
  "q2_option_text q1v v = map_of (filter (\<lambda>q. fst q \<noteq> q1v) questions) v"

definition addSecondQuestion :: "signup_dom \<Rightarrow> signup_dom option" where
  "addSecondQuestion d =
     (let v = q2 (dom_form d) in
      if v = [] then Some (d\<lparr>secondQuestion := [], dom_form := (dom_form d)\<lparr>answer2 := None\<rparr>\<rparr>)
      else case q2_option_text (q1 (dom_form d)) v of
        None \<Rightarrow> None
      | Some questionText \<Rightarrow>
          Some (d\<lparr>secondQuestion := second_question_html questionText,
                  dom_form := (dom_form d)\<lparr>answer2 := Some []\<rparr>\<rparr>))"

subsection \<open>Copying the password\<close>

text \<open>
  \<open>copyPassword\<close>: nothing without a password; otherwise the clipboard promise resolves
  (\<open>ok\<close>) or rejects, and the handler shows the matching alert.
\<close>

definition copyPassword :: "bool \<Rightarrow> signup_page \<Rightarrow> signup_page" where
  "copyPassword ok p =
     (if currentPassword p = [] then p
      else if ok then p\<lparr>alert := Some (''Password copied to clipboard!'', ''success'')\<rparr>
      else p\<lparr>alert := Some (''Failed to copy password'', ''error'')\<rparr>)"

subsection \<open>Events of the signup page\<close>

datatype signup_event =
    SelectQ1 string
  | SelectQ2 string
  | InputAnswer1 string
  | InputAnswer2 string
  | InputExtra string
  | ClickGenerate random_source nat
  | ClickCopy bool

text \<open>
  One event on the document and the page state. A select only takes the values of its
  options, and exists only while its container is rendered; typing in an answer field
  runs \<open>validateAnswers\<close>.
\<close>

fun signup_event_step :: "(string \<Rightarrow> string option) \<Rightarrow> signup_event \<Rightarrow> signup_dom \<times> signup_page \<Rightarrow> signup_dom \<times> signup_page" where
  "signup_event_step q1_text (SelectQ1 v) (d, p) =
     (if v \<noteq> [] \<and> q1_text v = None then (d, p)
      else case updateQuestionInputs q1_text (d\<lparr>dom_form := (dom_form d)\<lparr>q1 := v\<rparr>\<rparr>) of
             None \<Rightarrow> (d, p)
           | Some d' \<Rightarrow> (d', p))"
| "signup_event_step q1_text (SelectQ2 v) (d, p) =
     (if answer1 (dom_form d) = None \<or> v \<notin> set ([] # remaining_values (q1 (dom_form d))) then (d, p)
      else case addSecondQuestion (d\<lparr>dom_form := (dom_form d)\<lparr>q2 := v\<rparr>\<rparr>) of
             None \<Rightarrow> (d, p)
           | Some d' \<Rightarrow> (d', p))"
| "signup_event_step q1_text (InputAnswer1 s) (d, p) =
     (if answer1 (dom_form d) = None then (d, p)
      else let d' = d\<lparr>dom_form := (dom_form d)\<lparr>answer1 := Some s\<rparr>\<rparr> in (d', snd (validateAnswers (dom_form d') p)))"
| "signup_event_step q1_text (InputAnswer2 s) (d, p) =
     (if answer2 (dom_form d) = None then (d, p)
      else let d' = d\<lparr>dom_form := (dom_form d)\<lparr>answer2 := Some s\<rparr>\<rparr> in (d', snd (validateAnswers (dom_form d') p)))"
| "signup_event_step q1_text (InputExtra s) (d, p) = (d\<lparr>dom_form := (dom_form d)\<lparr>extraChars := s\<rparr>\<rparr>, p)"
| "signup_event_step q1_text (ClickGenerate rng year) (d, p) = (d, generatePassword rng year (dom_form d) p)"
| "signup_event_step q1_text (ClickCopy ok) (d, p) = (d, copyPassword ok p)"

definition run_signup_events :: "(string \<Rightarrow> string option) \<Rightarrow> signup_event list \<Rightarrow> signup_dom \<times> signup_page \<Rightarrow> signup_dom \<times> signup_page" where
  "run_signup_events q1_text evs s = fold (signup_event_step q1_text) evs s"

subsection \<open>Well-formed pages\<close>

text \<open>
  The document and the page agree with what the handlers maintain: the second select's value
  is one of its options and the second answer field exists only for a chosen question; the
  stored answers are for two different questions, the second from the catalogue; the
  displayed password, the enabled controls and the strength indicator follow
  \<open>currentPassword\<close>.
\<close>

definition form_wf :: "signup_form \<Rightarrow> bool" where
  "form_wf f \<longleftrightarrow>
     q2 f \<in> set ([] # remaining_values (q1 f)) \<and>
     (case answer2 f of None \<Rightarrow> True | Some a \<Rightarrow> q2 f \<noteq> []) \<and>
     (case answer1 f of None \<Rightarrow> q2 f = [] \<and> answer2 f = None | Some a \<Rightarrow> True)"

definition page_wf :: "signup_page \<Rightarrow> bool" where
  "page_wf p \<longleftrightarrow>
     (case userAnswers p of
        None \<Rightarrow> True
      | Some (u1, u2) \<Rightarrow> answer_type u2 \<in> set (remaining_values (answer_type u1))) \<and>
     generated_text p = currentPassword p \<and> controls_enabled p = (currentPassword p \<noteq> []) \<and>
     strength_shown p = (if currentPassword p = [] then None else Some (updateStrengthIndicator (currentPassword p)))"

subsection \<open>Facts: the page state\<close>

lemma validateAnswers_page_wf:
  assumes "form_wf f" "page_wf p"
  shows "page_wf (snd (validateAnswers f p))"
proof (cases "fst (validateAnswers f p)")
  case True
  then obtain a1 a2 where a: "answer1 f = Some a1" "answer2 f = Some a2" "js_trim a1 \<noteq> []" "js_trim a2 \<noteq> []"
    by (auto simp: validateAnswers_def split: option.splits if_splits)
  with assms(1) have "q2 f \<in> set (remaining_values (q1 f))" by (auto simp: form_wf_def)
  with a assms(2) show ?thesis by (simp add: validateAnswers_ok page_wf_def)
qed (simp add: validateAnswers_fail assms(2))

lemma generatePassword_page_wf:
  assumes "form_wf f" "page_wf p"
  shows "page_wf (generatePassword rng year f p)"
proof (cases "fst (validateAnswers f p)")
  case True
  let ?p1 = "snd (validateAnswers f p)"
  have w: "page_wf ?p1" using assms by (rule validateAnswers_page_wf)
  from True obtain a1 a2 where a: "answer1 f = Some a1" "answer2 f = Some a2" "js_trim a1 \<noteq> []" "js_trim a2 \<noteq> []"
    by (auto simp: validateAnswers_def split: option.splits if_splits)
  then show ?thesis using w
    by (simp add: generatePassword_def validateAnswers_ok page_wf_def derive_password_ne Let_def)
next
  case False
  then show ?thesis using assms(2)
    by (simp add: generatePassword_def split_def validateAnswers_fail page_wf_def)
qed

lemma copyPassword_page_wf: "page_wf p \<Longrightarrow> page_wf (copyPassword ok p)"
  by (simp add: copyPassword_def page_wf_def)

lemma remaining_values_option: "v \<in> set (remaining_values q) \<Longrightarrow> \<exists>t. q2_option_text q v = Some t"
proof -
  assume "v \<in> set (remaining_values q)"
  then obtain t where "(v, t) \<in> set (filter (\<lambda>q'. fst q' \<noteq> q) questions)"
    by (auto simp: remaining_values_def)
  then show ?thesis unfolding q2_option_text_def by (rule weak_map_of_SomeI)
qed

subsection \<open>Facts: the handlers keep the form well formed\<close>

lemma form_wf_same:
  "q1 f' = q1 f \<Longrightarrow> q2 f' = q2 f \<Longrightarrow> answer1 f' = answer1 f \<Longrightarrow> answer2 f' = answer2 f \<Longrightarrow> form_wf f' = form_wf f"
proof -
  assume "q1 f' = q1 f" "q2 f' = q2 f" "answer1 f' = answer1 f" "answer2 f' = answer2 f"
  then show ?thesis unfolding form_wf_def by (simp only:)
qed

lemma updateQuestionInputs_form:
  "updateQuestionInputs q1_text d = Some d' \<Longrightarrow>
   dom_form d' = (dom_form d)\<lparr>answer1 := None, q2 := [], answer2 := None\<rparr> \<or>
   dom_form d' = (dom_form d)\<lparr>answer1 := Some [], q2 := [], answer2 := None\<rparr>"
  by (auto simp: updateQuestionInputs_def Let_def split: if_splits option.splits)

lemma updateQuestionInputs_wf:
  "updateQuestionInputs q1_text d = Some d' \<Longrightarrow> form_wf (dom_form d')"
  by (drule updateQuestionInputs_form) (auto simp: form_wf_def)

lemma addSecondQuestion_form:
  "addSecondQuestion d = Some d' \<Longrightarrow>
   dom_form d' = (dom_form d)\<lparr>answer2 := (if q2 (dom_form d) = [] then None else Some [])\<rparr>"
  by (auto simp: addSecondQuestion_def Let_def split: if_splits option.splits)

lemma addSecondQuestion_wf:
  assumes "addSecondQuestion d = Some d'" "answer1 (dom_form d) \<noteq> None"
    and "q2 (dom_form d) \<in> set ([] # remaining_values (q1 (dom_form d)))"
  shows "form_wf (dom_form d')"
  using assms addSecondQuestion_form [OF assms(1)] by (auto simp: form_wf_def)

lemma signup_event_step_wf:
  assumes f: "form_wf (dom_form d)" and p: "page_wf p"
  shows "form_wf (dom_form (fst (signup_event_step q1_text ev (d, p)))) \<and> page_wf (snd (signup_event_step q1_text ev (d, p)))"
proof (cases ev)
  case (SelectQ1 v)
  then show ?thesis using f p updateQuestionInputs_wf
    by (simp split: option.splits)
next
  case (SelectQ2 v)
  show ?thesis
  proof (cases "answer1 (dom_form d) = None \<or> v \<notin> set ([] # remaining_values (q1 (dom_form d)))")
    case True
    with SelectQ2 f p show ?thesis by simp
  next
    case False
    let ?d = "d\<lparr>dom_form := (dom_form d)\<lparr>q2 := v\<rparr>\<rparr>"
    have "addSecondQuestion ?d = Some d' \<Longrightarrow> form_wf (dom_form d')" for d'
      using False by (intro addSecondQuestion_wf) auto
    with SelectQ2 False f p show ?thesis by (simp split: option.splits)
  qed
next
  case (InputAnswer1 s)
  show ?thesis
  proof (cases "answer1 (dom_form d) = None")
    case False
    let ?f = "(dom_form d)\<lparr>answer1 := Some s\<rparr>"
    have "form_wf ?f" using f False by (auto simp: form_wf_def split: option.splits)
    then have "page_wf (snd (validateAnswers ?f p))" using p by (rule validateAnswers_page_wf)
    with InputAnswer1 False \<open>form_wf ?f\<close> show ?thesis by (auto simp: Let_def)
  qed (use InputAnswer1 f p in simp)
next
  case (InputAnswer2 s)
  show ?thesis
  proof (cases "answer2 (dom_form d) = None")
    case False
    let ?f = "(dom_form d)\<lparr>answer2 := Some s\<rparr>"
    have "form_wf ?f" using f False by (auto simp: form_wf_def split: option.splits)
    then have "page_wf (snd (validateAnswers ?f p))" using p by (rule validateAnswers_page_wf)
    with InputAnswer2 False \<open>form_wf ?f\<close> show ?thesis by (auto simp: Let_def)
  qed (use InputAnswer2 f p in simp)
next
  case (InputExtra s)
  have "form_wf ((dom_form d)\<lparr>extraChars := s\<rparr>) = form_wf (dom_form d)" by (rule form_wf_same) simp_all
  with f have "form_wf ((dom_form d)\<lparr>extraChars := s\<rparr>)" by simp
  with InputExtra p show ?thesis by simp
next
  case (ClickGenerate rng year)
  with f p show ?thesis by (simp add: generatePassword_page_wf)
next
  case (ClickCopy ok)
  with f p show ?thesis by (simp add: copyPassword_page_wf)
qed

subsection \<open>Facts: every run of events\<close>

lemma run_signup_events_wf:
  "form_wf (dom_form (fst s)) \<Longrightarrow> page_wf (snd s) \<Longrightarrow>
   form_wf (dom_form (fst (run_signup_events q1_text evs s))) \<and> page_wf (snd (run_signup_events q1_text evs s))"
proof (induction evs arbitrary: s)
  case (Cons ev evs)
  obtain d p where s: "s = (d, p)" by fastforce
  with Cons.prems signup_event_step_wf [of d p q1_text ev]
  have "form_wf (dom_form (fst (signup_event_step q1_text ev s))) \<and> page_wf (snd (signup_event_step q1_text ev s))"
    by simp
  with Cons.IH show ?case by (simp add: run_signup_events_def)
qed (simp add: run_signup_events_def)

lemma signup_init_wf: "form_wf (dom_form signup_dom_init) \<and> page_wf signup_page_init"
  by (simp add: signup_dom_init_def signup_page_init_def form_wf_def page_wf_def)

text \<open>
  C33 (the signup page stays well formed): along every sequence of user events from the
  loaded page, the second select holds one of its options, the second answer field exists
  only for a chosen question, the stored answers are for a catalogue question and a
  different one, and the displayed password, the enabled controls and the strength
  indicator follow \<open>currentPassword\<close>.
\<close>

theorem signup_events_wf:
  "form_wf (dom_form (fst (run_signup_events q1_text evs (signup_dom_init, signup_page_init)))) \<and>
   page_wf (snd (run_signup_events q1_text evs (signup_dom_init, signup_page_init)))"
  using run_signup_events_wf signup_init_wf by simp

end
