(* ===== verification/Auth.thy ===== *)
theory Auth
  imports CharClasses
begin

text \<open>
  The password checks of auth.js's \<open>AuthUtils\<close>: \<open>validatePassword\<close> with its five
  requirements and \<open>getPasswordStrength\<close>'s tiers, and the entropy estimate
  (\<open>getCharsetSize\<close>, \<open>calculateEntropy\<close>, \<open>checkPasswordStrength\<close>).
  \<open>calculateEntropy\<close> is \<open>Math.log2(Math.pow(charsetSize, length))\<close>, modelled over the
  reals; \<open>entropy_tier\<close> decides the same tiers on natural numbers, so the checker can
  be evaluated.
\<close>

subsection \<open>validatePassword and getPasswordStrength\<close>

record requirements =
  req_length :: bool
  hasUpper :: bool
  hasLower :: bool
  hasNumber :: bool
  hasSpecial :: bool

record validation =
  isValid :: bool
  reqs :: requirements
  score :: nat
  strength :: tier

definition password_requirements :: "string \<Rightarrow> requirements" where
  "password_requirements password =
     \<lparr>req_length = 8 \<le> length password, hasUpper = has_upper password,
      hasLower = has_lower password, hasNumber = has_digit password,
      hasSpecial = has_special password\<rparr>"

text \<open>\<open>Object.values(requirements).filter(Boolean).length\<close>\<close>

definition metRequirements :: "requirements \<Rightarrow> nat" where
  "metRequirements r =
     length (filter id [req_length r, hasUpper r, hasLower r, hasNumber r, hasSpecial r])"

definition getPasswordStrength :: "string \<Rightarrow> nat \<Rightarrow> tier" where
  "getPasswordStrength password met =
     (if 12 \<le> length password \<and> 4 \<le> met then Strong
      else if 10 \<le> length password \<and> 3 \<le> met then Fair
      else Weak)"

definition validatePassword :: "string \<Rightarrow> validation" where
  "validatePassword password =
     (let requirements = password_requirements password;
          met = metRequirements requirements
      in \<lparr>isValid = 8 \<le> length password \<and> 3 \<le> met,
          reqs = requirements,
          score = met,
          strength = getPasswordStrength password met\<rparr>)"

subsection \<open>The entropy estimate\<close>

definition getCharsetSize :: "string \<Rightarrow> nat" where
  "getCharsetSize password =
     (if has_lower password then 26 else 0) + (if has_upper password then 26 else 0) +
     (if has_digit password then 10 else 0) + (if has_non_alnum password then 32 else 0)"

definition calculateEntropy :: "string \<Rightarrow> real" where
  "calculateEntropy password = log 2 (real (getCharsetSize password) ^ length password)"

definition entropy_message :: "tier \<Rightarrow> string" where
  "entropy_message t =
     (case t of Weak \<Rightarrow> ''Password is too predictable''
      | Fair \<Rightarrow> ''Password could be stronger''
      | Strong \<Rightarrow> ''Password is strong'')"

definition checkPasswordStrength :: "string \<Rightarrow> tier \<times> string" where
  "checkPasswordStrength password =
     (let entropy = calculateEntropy password;
          t = (if entropy < 40 then Weak else if entropy < 60 then Fair else Strong)
      in (t, entropy_message t))"

text \<open>The same tiers decided on the integer \<open>charsetSize ^ length\<close>.\<close>

definition entropy_tier :: "string \<Rightarrow> tier" where
  "entropy_tier password =
     (let v = getCharsetSize password ^ length password
      in if v < 2 ^ 40 then Weak else if v < 2 ^ 60 then Fair else Strong)"

subsection \<open>Lemmas\<close>

lemma has_non_alnum_Cons [simp]: "has_non_alnum (c # cs) \<longleftrightarrow> is_non_alnum c \<or> has_non_alnum cs"
  by (simp add: has_class_defs)

lemma getCharsetSize_pos: "password \<noteq> [] \<Longrightarrow> 0 < getCharsetSize password"
proof -
  assume "password \<noteq> []"
  then obtain c cs where "password = c # cs" by (cases password) auto
  then show ?thesis
    by (auto simp: getCharsetSize_def is_non_alnum_def is_alpha_def)
qed

lemma charset_power_pos: "0 < getCharsetSize password ^ length password"
  using getCharsetSize_pos by (cases "password = []") simp_all

lemma log2_less_nat: "0 < v \<Longrightarrow> log 2 (real v) < real k \<longleftrightarrow> v < (2::nat) ^ k"
proof -
  assume v: "0 < v"
  have "log 2 (real v) < real k \<longleftrightarrow> real v < 2 powr real k"
    using v by (simp add: log_less_iff)
  also have "\<dots> \<longleftrightarrow> real v < 2 ^ k" by (simp add: powr_realpow)
  also have "\<dots> \<longleftrightarrow> v < 2 ^ k"
    by (metis of_nat_less_iff of_nat_numeral of_nat_power)
  finally show ?thesis .
qed

lemma calculateEntropy_nat: "calculateEntropy password = log 2 (real (getCharsetSize password ^ length password))"
  by (simp add: calculateEntropy_def)


lemma metRequirements_count:
  "metRequirements (password_requirements password) = of_bool (8 \<le> length password) + class_count password"
  by (simp add: metRequirements_def password_requirements_def class_count_def)

text \<open>\<open>validatePassword\<close> in closed form over the four classes.\<close>

lemma validatePassword_closed_form:
  "validatePassword password =
     \<lparr>isValid = 8 \<le> length password \<and> 2 \<le> class_count password,
      reqs = password_requirements password,
      score = of_bool (8 \<le> length password) + class_count password,
      strength = (if 12 \<le> length password \<and> 3 \<le> class_count password then Strong
                  else if 10 \<le> length password \<and> 2 \<le> class_count password then Fair else Weak)\<rparr>"
  by (auto simp: validatePassword_def Let_def metRequirements_count getPasswordStrength_def)


lemma charset_three_classes:
  "has_lower s \<Longrightarrow> has_digit s \<Longrightarrow> has_special s \<Longrightarrow> 68 \<le> getCharsetSize s"
proof -
  assume "has_lower s" "has_digit s" "has_special s"
  moreover from \<open>has_special s\<close> have "has_non_alnum s"
    using special_non_alnum by (auto simp: has_class_defs list_ex_iff)
  ultimately show ?thesis by (simp add: getCharsetSize_def)
qed

subsection \<open>Properties of the checks\<close>

text \<open>
  C8 (two classes are enough to be valid): because the length requirement is counted
  among the five, \<open>validatePassword\<close> accepts exactly the passwords of at least
  eight characters with at least two of the four character classes.
\<close>

theorem validatePassword_valid_iff:
  "isValid (validatePassword password) \<longleftrightarrow> 8 \<le> length password \<and> 2 \<le> class_count password"
  by (simp add: validatePassword_closed_form)

text \<open>
  The compliance tiers in terms of classes: strong needs twelve characters and
  three classes, fair ten characters and two classes.
\<close>

lemma validatePassword_strength:
  "strength (validatePassword password) =
     (if 12 \<le> length password \<and> 3 \<le> class_count password then Strong
      else if 10 \<le> length password \<and> 2 \<le> class_count password then Fair else Weak)"
  by (simp add: validatePassword_closed_form)

text \<open>
  C9 (entropy tiers decided exactly): the tier \<open>checkPasswordStrength\<close> computes from
  the real logarithm is the tier of comparing \<open>charsetSize ^ length\<close> with
  \<open>2 ^ 40\<close> and \<open>2 ^ 60\<close>, for every password (the charset is never empty on a
  non-empty password).
\<close>

theorem checkPasswordStrength_tier: "fst (checkPasswordStrength password) = entropy_tier password"
proof -
  have p: "0 < getCharsetSize password ^ length password" by (rule charset_power_pos)
  have 40: "calculateEntropy password < 40 \<longleftrightarrow> getCharsetSize password ^ length password < 2 ^ 40"
    using log2_less_nat [OF p, of 40] by (simp add: calculateEntropy_nat)
  have 60: "calculateEntropy password < 60 \<longleftrightarrow> getCharsetSize password ^ length password < 2 ^ 60"
    using log2_less_nat [OF p, of 60] by (simp add: calculateEntropy_nat)
  show ?thesis
    by (simp add: checkPasswordStrength_def entropy_tier_def Let_def 40 60)
qed


end
