(* ===== verification/RateLimit.thy ===== *)
theory RateLimit
  imports Prelude
begin

text \<open>
  The login rate limiter of auth.js, \<open>AuthUtils.checkRateLimit(identifier)\<close>. It keeps,
  under the \<open>localStorage\<close> key \<open>rate_limit_<identifier>\<close>, the JSON record
  \<open>{count, firstAttempt}\<close>; the part of the storage it owns is a map from keys to those
  records (\<open>rate_store\<close>), and one call is \<open>checkRateLimit\<close>, a function of the
  identifier, the clock \<open>Date.now()\<close> and the store, returning the decision and the new
  store. \<open>rate_step\<close> is one call by any identifier at any time, \<open>rate_reachable\<close> the
  stores reachable from the empty storage, and \<open>run_calls\<close> a sequence of calls.
\<close>

record rate_entry =
  count :: nat
  firstAttempt :: ms

type_synonym rate_store = "string \<rightharpoonup> rate_entry"

record rate_decision =
  allowed :: bool
  remaining :: int

definition rate_key :: "string \<Rightarrow> string" where
  "rate_key identifier = ''rate_limit_'' @ identifier"

definition timeWindow :: ms where
  "timeWindow = 15 * 60 * 1000"

definition checkRateLimit :: "string \<Rightarrow> ms \<Rightarrow> rate_store \<Rightarrow> rate_decision \<times> rate_store" where
  "checkRateLimit identifier now store =
     (let key = rate_key identifier in
      case store key of
        None \<Rightarrow> (\<lparr>allowed = True, remaining = 4\<rparr>, store(key \<mapsto> \<lparr>count = 1, firstAttempt = now\<rparr>))
      | Some data \<Rightarrow>
          if now - firstAttempt data > timeWindow
          then (\<lparr>allowed = True, remaining = 4\<rparr>, store(key \<mapsto> \<lparr>count = 1, firstAttempt = now\<rparr>))
          else if 5 \<le> count data then (\<lparr>allowed = False, remaining = 0\<rparr>, store)
          else (let data' = data\<lparr>count := count data + 1\<rparr>
                in (\<lparr>allowed = True, remaining = 5 - int (count data')\<rparr>, store(key \<mapsto> data'))))"

text \<open>A sequence of calls \<open>(identifier, time)\<close>, each on the store the previous one left.\<close>

fun run_calls :: "(string \<times> ms) list \<Rightarrow> rate_store \<Rightarrow> rate_decision list \<times> rate_store" where
  "run_calls [] store = ([], store)"
| "run_calls ((identifier, now) # calls) store =
     (let (d, store') = checkRateLimit identifier now store;
          (ds, store'') = run_calls calls store'
      in (d # ds, store''))"

text \<open>
  The abstract contract inside one window: a counter that allows while fewer than five
  attempts have been counted, reporting how many remain, and denies afterwards.
\<close>

fun window_decisions :: "nat \<Rightarrow> nat \<Rightarrow> rate_decision list" where
  "window_decisions c 0 = []"
| "window_decisions c (Suc n) =
     (if c < 5 then \<lparr>allowed = True, remaining = 4 - int c\<rparr> # window_decisions (Suc c) n
      else \<lparr>allowed = False, remaining = 0\<rparr> # window_decisions c n)"

inductive rate_step :: "rate_store \<Rightarrow> rate_store \<Rightarrow> bool" where
  call: "rate_step store (snd (checkRateLimit identifier now store))"

inductive rate_reachable :: "rate_store \<Rightarrow> bool" where
  empty: "rate_reachable Map.empty"
| step: "rate_reachable store \<Longrightarrow> rate_step store store' \<Longrightarrow> rate_reachable store'"

inductive_cases rate_stepE: "rate_step store store'"

definition rate_inv :: "rate_store \<Rightarrow> bool" where
  "rate_inv store \<longleftrightarrow> (\<forall>e\<in>ran store. 1 \<le> count e \<and> count e \<le> 5)"

subsection \<open>Facts: one call\<close>

lemma checkRateLimit_new:
  "store (rate_key identifier) = None \<Longrightarrow>
   checkRateLimit identifier now store = (\<lparr>allowed = True, remaining = 4\<rparr>, store(rate_key identifier \<mapsto> \<lparr>count = 1, firstAttempt = now\<rparr>))"
  by (simp add: checkRateLimit_def)

lemma checkRateLimit_in_window:
  "store (rate_key identifier) = Some data \<Longrightarrow> now - firstAttempt data \<le> timeWindow \<Longrightarrow>
   checkRateLimit identifier now store =
     (if 5 \<le> count data then (\<lparr>allowed = False, remaining = 0\<rparr>, store)
      else (\<lparr>allowed = True, remaining = 4 - int (count data)\<rparr>,
            store(rate_key identifier \<mapsto> data\<lparr>count := Suc (count data)\<rparr>)))"
  by (simp add: checkRateLimit_def Let_def)

lemma checkRateLimit_expired:
  "store (rate_key identifier) = Some data \<Longrightarrow> timeWindow < now - firstAttempt data \<Longrightarrow>
   checkRateLimit identifier now store = (\<lparr>allowed = True, remaining = 4\<rparr>, store(rate_key identifier \<mapsto> \<lparr>count = 1, firstAttempt = now\<rparr>))"
  by (simp add: checkRateLimit_def)

subsection \<open>Facts: the counter invariant\<close>

lemma rate_inv_empty: "rate_inv Map.empty"
  by (simp add: rate_inv_def)

lemma rate_inv_upd: "rate_inv store \<Longrightarrow> 1 \<le> count e \<Longrightarrow> count e \<le> 5 \<Longrightarrow> rate_inv (store(k \<mapsto> e))"
  by (auto simp: rate_inv_def ran_def)

lemma rate_inv_get: "rate_inv store \<Longrightarrow> store k = Some e \<Longrightarrow> 1 \<le> count e \<and> count e \<le> 5"
  by (auto simp: rate_inv_def ran_def)

lemma checkRateLimit_inv: "rate_inv store \<Longrightarrow> rate_inv (snd (checkRateLimit identifier now store))"
  by (auto simp: checkRateLimit_def Let_def rate_inv_upd split: option.splits)

lemma rate_step_inv: "rate_step store store' \<Longrightarrow> rate_inv store \<Longrightarrow> rate_inv store'"
  by (erule rate_stepE) (simp add: checkRateLimit_inv)

lemma rate_reachable_inv: "rate_reachable store \<Longrightarrow> rate_inv store"
  by (induction rule: rate_reachable.induct) (simp_all add: rate_inv_empty rate_step_inv)

text \<open>
  C15 (stored counters stay in range): in every storage reachable from the empty one by calls of \<open>checkRateLimit\<close>, by any identifiers at any times, every stored counter is between 1 and 5.
\<close>

theorem rate_reachable_count_bounded:
  "rate_reachable store \<Longrightarrow> store k = Some e \<Longrightarrow> 1 \<le> count e \<and> count e \<le> 5"
  using rate_reachable_inv rate_inv_get by blast

theorem rate_reachable_count_bounded_witness:
  "rate_reachable [rate_key ''bob'' \<mapsto> \<lparr>count = 1, firstAttempt = 0\<rparr>] \<and> 1 \<le> count \<lparr>count = 1, firstAttempt = 0\<rparr>"
proof -
  have "rate_reachable (snd (checkRateLimit ''bob'' 0 Map.empty))"
    by (rule rate_reachable.step [OF rate_reachable.empty rate_step.call])
  then have r: "rate_reachable [rate_key ''bob'' \<mapsto> \<lparr>count = 1, firstAttempt = 0\<rparr>]"
    by (simp add: checkRateLimit_def)
  show ?thesis using rate_reachable_count_bounded [OF r, of "rate_key ''bob''"] r by simp
qed

subsection \<open>Facts: calls within one window\<close>

lemma fst_run_calls_Cons:
  "fst (run_calls ((identifier, now) # calls) store) =
     fst (checkRateLimit identifier now store) # fst (run_calls calls (snd (checkRateLimit identifier now store)))"
  by (simp add: split_def Let_def)

lemma run_in_window:
  assumes "store (rate_key identifier) = Some data" "count data \<le> 5"
    and "\<forall>t\<in>set ts. t - firstAttempt data \<le> timeWindow"
  shows "fst (run_calls (map (Pair identifier) ts) store) = window_decisions (count data) (length ts)"
  using assms
proof (induction ts arbitrary: store data)
  case Nil
  then show ?case by simp
next
  case (Cons t ts)
  show ?case
  proof (cases "5 \<le> count data")
    case True
    then have "checkRateLimit identifier t store = (\<lparr>allowed = False, remaining = 0\<rparr>, store)"
      using Cons.prems checkRateLimit_in_window by simp
    with Cons True show ?thesis by (simp add: fst_run_calls_Cons del: run_calls.simps)
  next
    case False
    let ?d = "data\<lparr>count := Suc (count data)\<rparr>"
    have c: "checkRateLimit identifier t store =
        (\<lparr>allowed = True, remaining = 4 - int (count data)\<rparr>, store(rate_key identifier \<mapsto> ?d))"
      using Cons.prems False checkRateLimit_in_window by simp
    have ih: "fst (run_calls (map (Pair identifier) ts) (store(rate_key identifier \<mapsto> ?d))) =
                   window_decisions (Suc (count data)) (length ts)"
    proof -
      have "(store(rate_key identifier \<mapsto> ?d)) (rate_key identifier) = Some ?d" by simp
      moreover have "count ?d \<le> 5" using False by simp
      moreover have "\<forall>t\<in>set ts. t - firstAttempt ?d \<le> timeWindow" using Cons.prems by simp
      ultimately show ?thesis using Cons.IH by fastforce
    qed
    have "fst (run_calls (map (Pair identifier) (t # ts)) store) =
          \<lparr>allowed = True, remaining = 4 - int (count data)\<rparr> #
          fst (run_calls (map (Pair identifier) ts) (store(rate_key identifier \<mapsto> ?d)))"
      by (simp only: list.map fst_run_calls_Cons c fst_conv snd_conv)
    also have "\<dots> = window_decisions (count data) (length (t # ts))"
      using False by (simp only: ih) simp
    finally show ?thesis .
  qed
qed

lemma window_decisions_nth:
  "c \<le> 5 \<Longrightarrow> i < n \<Longrightarrow> window_decisions c n ! i =
     (if c + i < 5 then \<lparr>allowed = True, remaining = 4 - int (c + i)\<rparr> else \<lparr>allowed = False, remaining = 0\<rparr>)"
proof (induction c n arbitrary: i rule: window_decisions.induct)
  case (2 c n)
  then show ?case by (cases i) auto
qed simp

lemma length_window_decisions: "length (window_decisions c n) = n"
  by (induction c n rule: window_decisions.induct) simp_all

lemma snd_run_calls_Cons:
  "snd (run_calls ((identifier, now) # calls) store) = snd (run_calls calls (snd (checkRateLimit identifier now store)))"
  by (simp add: split_def Let_def)

lemma run_calls_append:
  "fst (run_calls (xs @ ys) store) = fst (run_calls xs store) @ fst (run_calls ys (snd (run_calls xs store)))"
  by (induction xs arbitrary: store) (auto simp: split_def Let_def)

lemma run_in_window_start:
  assumes "store (rate_key identifier) = Some data" "\<forall>t\<in>set ts. t - firstAttempt data \<le> timeWindow"
  shows "\<exists>d. snd (run_calls (map (Pair identifier) ts) store) (rate_key identifier) = Some d \<and> firstAttempt d = firstAttempt data"
  using assms
proof (induction ts arbitrary: store data)
  case Nil
  then show ?case by simp
next
  case (Cons t ts)
  show ?case
  proof (cases "5 \<le> count data")
    case True
    then have c: "snd (checkRateLimit identifier t store) = store"
      using Cons.prems checkRateLimit_in_window by simp
    have e: "snd (run_calls (map (Pair identifier) (t # ts)) store) = snd (run_calls (map (Pair identifier) ts) store)"
      by (simp only: list.map snd_run_calls_Cons c)
    from Cons show ?thesis unfolding e by simp
  next
    case False
    let ?d = "data\<lparr>count := Suc (count data)\<rparr>"
    have c: "snd (checkRateLimit identifier t store) = store(rate_key identifier \<mapsto> ?d)"
      using Cons.prems False checkRateLimit_in_window by simp
    have e: "snd (run_calls (map (Pair identifier) (t # ts)) store) =
             snd (run_calls (map (Pair identifier) ts) (store(rate_key identifier \<mapsto> ?d)))"
      by (simp only: list.map snd_run_calls_Cons c)
    have k: "(store(rate_key identifier \<mapsto> ?d)) (rate_key identifier) = Some ?d" by simp
    have w: "\<forall>t\<in>set ts. t - firstAttempt ?d \<le> timeWindow" using Cons.prems by simp
    have "\<exists>d. snd (run_calls (map (Pair identifier) ts) (store(rate_key identifier \<mapsto> ?d))) (rate_key identifier) = Some d \<and>
                     firstAttempt d = firstAttempt ?d"
      by (rule Cons.IH [where store = "store(rate_key identifier \<mapsto> ?d)" and data = ?d, OF k w])
    then show ?thesis unfolding e by simp
  qed
qed

lemma run_from_start:
  assumes "checkRateLimit identifier t0 store =
             (\<lparr>allowed = True, remaining = 4\<rparr>, store(rate_key identifier \<mapsto> \<lparr>count = 1, firstAttempt = t0\<rparr>))"
    and "\<forall>t\<in>set ts. t - t0 \<le> timeWindow"
  shows "fst (run_calls (map (Pair identifier) (t0 # ts)) store) = window_decisions 0 (Suc (length ts))"
proof -
  have "fst (run_calls (map (Pair identifier) ts) (store(rate_key identifier \<mapsto> \<lparr>count = 1, firstAttempt = t0\<rparr>)))
        = window_decisions 1 (length ts)"
    using assms(2) run_in_window [where data = "\<lparr>count = 1, firstAttempt = t0\<rparr>"] by simp
  with assms(1) show ?thesis by (simp add: fst_run_calls_Cons del: run_calls.simps)
qed

lemma run_from_new:
  assumes "store (rate_key identifier) = None" "\<forall>t\<in>set ts. t - t0 \<le> timeWindow"
  shows "fst (run_calls (map (Pair identifier) (t0 # ts)) store) = window_decisions 0 (Suc (length ts))"
proof -
  have "checkRateLimit identifier t0 store =
      (\<lparr>allowed = True, remaining = 4\<rparr>, store(rate_key identifier \<mapsto> \<lparr>count = 1, firstAttempt = t0\<rparr>))"
    using assms(1) by (rule checkRateLimit_new)
  then show ?thesis using assms(2) by (rule run_from_start)
qed

text \<open>
  C14 (refinement of the window contract): for calls by one identifier that has no record, all within fifteen minutes of the first, the decisions of \<open>checkRateLimit\<close> are those of the counter \<open>window_decisions\<close>: the i-th call is allowed with \<open>4 - i\<close> attempts remaining while i < 5, and denied with none remaining afterwards.
\<close>

theorem rate_limit_fresh_window:
  assumes "store (rate_key identifier) = None" "\<forall>t\<in>set ts. t - t0 \<le> timeWindow"
  shows "length (fst (run_calls (map (Pair identifier) (t0 # ts)) store)) = Suc (length ts) \<and>
         (\<forall>i \<le> length ts. fst (run_calls (map (Pair identifier) (t0 # ts)) store) ! i =
            (if i < 5 then \<lparr>allowed = True, remaining = 4 - int i\<rparr> else \<lparr>allowed = False, remaining = 0\<rparr>))"
proof -
  have "fst (run_calls (map (Pair identifier) (t0 # ts)) store) = window_decisions 0 (Suc (length ts))"
    using assms by (rule run_from_new)
  then show ?thesis
    by (auto simp: length_window_decisions window_decisions_nth simp del: run_calls.simps window_decisions.simps)
qed

theorem rate_limit_fresh_window_witness:
  "fst (run_calls (map (Pair ''bob'') [0, 1, 2, 3, 4, 5]) Map.empty) ! 5 = \<lparr>allowed = False, remaining = 0\<rparr>"
proof -
  have "\<forall>t\<in>set [1, 2, 3, 4, 5]. t - 0 \<le> timeWindow" by (simp add: timeWindow_def)
  from rate_limit_fresh_window [of Map.empty "''bob''" "[1, 2, 3, 4, 5]" 0, OF _ this] show ?thesis by simp
qed

text \<open>
  C16 (identifiers are independent): a call for one identifier leaves the record of every other key unchanged.
\<close>

theorem checkRateLimit_other_keys:
  "k \<noteq> rate_key identifier \<Longrightarrow> snd (checkRateLimit identifier now store) k = store k"
  by (simp add: checkRateLimit_def Let_def split: option.splits)

theorem checkRateLimit_other_keys_witness:
  "snd (checkRateLimit ''bob'' 7 [rate_key ''alice'' \<mapsto> \<lparr>count = 5, firstAttempt = 0\<rparr>]) (rate_key ''alice'')
     = Some \<lparr>count = 5, firstAttempt = 0\<rparr>"
  using checkRateLimit_other_keys [of "rate_key ''alice''" "''bob''" 7 "[rate_key ''alice'' \<mapsto> \<lparr>count = 5, firstAttempt = 0\<rparr>]"]
  by (simp add: rate_key_def)

text \<open>
  C17 (a fixed window, not a sliding one): the window is anchored at the first attempt of a fresh identifier and restarts only when a call comes more than fifteen minutes after that attempt, whatever the count; so the calls of the first window and those of the next one each follow the counter from zero, and five attempts at the end of one window and five at the start of the next, one millisecond apart, are all allowed.
\<close>

theorem rate_limit_fixed_window:
  assumes "store (rate_key identifier) = None" "\<forall>t\<in>set ts1. t - t0 \<le> timeWindow"
    and "timeWindow < t1 - t0" "\<forall>t\<in>set ts2. t - t1 \<le> timeWindow"
  shows "fst (run_calls (map (Pair identifier) (t0 # ts1 @ t1 # ts2)) store) =
           window_decisions 0 (Suc (length ts1)) @ window_decisions 0 (Suc (length ts2))"
proof -
  let ?xs = "map (Pair identifier) (t0 # ts1)" and ?ys = "map (Pair identifier) (t1 # ts2)"
  have c0: "checkRateLimit identifier t0 store =
      (\<lparr>allowed = True, remaining = 4\<rparr>, store(rate_key identifier \<mapsto> \<lparr>count = 1, firstAttempt = t0\<rparr>))"
    using assms(1) by (rule checkRateLimit_new)
  have a: "fst (run_calls ?xs store) = window_decisions 0 (Suc (length ts1))"
    using c0 assms(2) by (rule run_from_start)
  have s0: "snd (run_calls ?xs store) =
             snd (run_calls (map (Pair identifier) ts1) (store(rate_key identifier \<mapsto> \<lparr>count = 1, firstAttempt = t0\<rparr>)))"
    by (simp only: list.map snd_run_calls_Cons c0 snd_conv)
  have k: "(store(rate_key identifier \<mapsto> \<lparr>count = 1, firstAttempt = t0\<rparr>)) (rate_key identifier) = Some \<lparr>count = 1, firstAttempt = t0\<rparr>"
    by simp
  obtain d where d: "snd (run_calls ?xs store) (rate_key identifier) = Some d" "firstAttempt d = t0"
    using run_in_window_start [where store = "store(rate_key identifier \<mapsto> \<lparr>count = 1, firstAttempt = t0\<rparr>)"
        and data = "\<lparr>count = 1, firstAttempt = t0\<rparr>", OF k] assms(2) unfolding s0 by auto
  have c1: "checkRateLimit identifier t1 (snd (run_calls ?xs store)) =
      (\<lparr>allowed = True, remaining = 4\<rparr>, (snd (run_calls ?xs store))(rate_key identifier \<mapsto> \<lparr>count = 1, firstAttempt = t1\<rparr>))"
    using d assms(3) by (simp add: checkRateLimit_expired)
  have b: "fst (run_calls ?ys (snd (run_calls ?xs store))) = window_decisions 0 (Suc (length ts2))"
    using c1 assms(4) by (rule run_from_start)
  have "map (Pair identifier) (t0 # ts1 @ t1 # ts2) = ?xs @ ?ys" by simp
  then show ?thesis using a b run_calls_append [of ?xs ?ys store] by (simp del: run_calls.simps)
qed

theorem rate_limit_fixed_window_witness:
  "map allowed (fst (run_calls (map (Pair ''bob'') (0 # [900000, 900000, 900000, 900000] @ 900001 # [900001, 900001, 900001, 900001])) Map.empty))
   = replicate 10 True"
proof -
  have "fst (run_calls (map (Pair ''bob'') (0 # [900000, 900000, 900000, 900000] @ 900001 # [900001, 900001, 900001, 900001])) Map.empty)
        = window_decisions 0 (Suc (length [900000, 900000, 900000, 900000::int])) @
          window_decisions 0 (Suc (length [900001, 900001, 900001, 900001::int]))"
    by (rule rate_limit_fixed_window) (simp_all add: timeWindow_def)
  then show ?thesis by (simp add: numeral_eq_Suc)
qed

subsection \<open>Facts: no permanent lockout\<close>

text \<open>
  C32 (a locked-out identifier recovers): from some time on, every call of
  \<open>checkRateLimit\<close> for an identifier is allowed with four attempts remaining, whatever
  the stored record: at the latest fifteen minutes and one millisecond after its first attempt.
\<close>

theorem rate_limit_recovers:
  "\<exists>t0. \<forall>t. t0 \<le> t \<longrightarrow> fst (checkRateLimit identifier t store) = \<lparr>allowed = True, remaining = 4\<rparr>"
proof (cases "store (rate_key identifier)")
  case None
  then show ?thesis by (simp add: checkRateLimit_new)
next
  case (Some e)
  have "fst (checkRateLimit identifier t store) = \<lparr>allowed = True, remaining = 4\<rparr>"
    if "firstAttempt e + timeWindow + 1 \<le> t" for t
    using Some that by (simp add: checkRateLimit_expired)
  then show ?thesis by blast
qed

theorem rate_limit_recovers_witness:
  "fst (checkRateLimit ''bob'' 10 [rate_key ''bob'' \<mapsto> \<lparr>count = 5, firstAttempt = 0\<rparr>]) = \<lparr>allowed = False, remaining = 0\<rparr> \<and>
   (\<exists>t0. \<forall>t. t0 \<le> t \<longrightarrow>
      fst (checkRateLimit ''bob'' t [rate_key ''bob'' \<mapsto> \<lparr>count = 5, firstAttempt = 0\<rparr>]) = \<lparr>allowed = True, remaining = 4\<rparr>)"
proof -
  have "\<exists>t0. \<forall>t. t0 \<le> t \<longrightarrow>
      fst (checkRateLimit ''bob'' t [rate_key ''bob'' \<mapsto> \<lparr>count = 5, firstAttempt = 0\<rparr>]) = \<lparr>allowed = True, remaining = 4\<rparr>"
    by (rule rate_limit_recovers)
  moreover have "fst (checkRateLimit ''bob'' 10 [rate_key ''bob'' \<mapsto> \<lparr>count = 5, firstAttempt = 0\<rparr>]) = \<lparr>allowed = False, remaining = 0\<rparr>"
    by (simp add: checkRateLimit_def timeWindow_def)
  ultimately show ?thesis by blast
qed

end
