(* ===== verification/Quiz.thy ===== *)
theory Quiz
  imports CharClasses
begin

text \<open>
  The quiz page's generator, src/js/script.js \<open>generatePassword\<close>: at least three checked
  questions, each answer trimmed, reduced to its letters and capitalised, the answers
  joined with \<open>-\<close>, then a random symbol, a random number from 10 to 99 and random
  digits up to fourteen characters. \<open>crypto.getRandomValues\<close> fills a
  \<open>Uint32Array(1)\<close>: the \<open>k\<close>-th draw is the 32-bit word \<open>rw k\<close>, and
  \<open>array[0] % max\<close> is \<open>unat (rw k) mod bound\<close> (\<open>max\<close> renamed \<open>bound\<close>). \<open>window.alert\<close> is a list of the
  messages shown, in order; the password is what is written to \<open>#password-output\<close>.
\<close>

type_synonym word_source = "nat \<Rightarrow> 32 word"

definition secureRandomNumber :: "word_source \<Rightarrow> nat \<Rightarrow> nat \<Rightarrow> nat" where
  "secureRandomNumber rw k bound = unat (rw k) mod bound"

definition quiz_symbols :: string where
  "quiz_symbols = ''!@#$%&*''"

record quiz_page =
  quiz_alerts :: "string list"
  password_output :: "string option"

text \<open>
  One round of \<open>checkboxes.forEach\<close>: \<open>return\<close> leaves the callback only, so after an
  alert the loop goes on with the next box from an emptied \<open>answers\<close>.
\<close>

definition collect_answer :: "string list \<times> string list \<Rightarrow> string \<Rightarrow> string list \<times> string list" where
  "collect_answer st input_value =
     (let (answers, alerts) = st; value = js_trim input_value in
      if value = [] then ([], alerts @ [''Please answer all selected questions.''])
      else
        let cleaned = filter is_alpha value in
        if length cleaned < 2 then ([], alerts @ [''Answers must contain at least 2 letters.''])
        else (answers @ [capitalize cleaned], alerts))"

definition collect_answers :: "string list \<Rightarrow> string list \<times> string list" where
  "collect_answers input_values = foldl collect_answer ([], []) input_values"

definition quiz_password :: "word_source \<Rightarrow> string list \<Rightarrow> string" where
  "quiz_password rw answers =
     (let randomSymbol = quiz_symbols ! secureRandomNumber rw 0 (length quiz_symbols);
          randomNumber = secureRandomNumber rw 1 90 + 10;
          password = join_with (CHR ''-'') answers @ [randomSymbol] @ dec_string randomNumber
      in fst (pad_digits (\<lambda>k. secureRandomNumber rw k 9) 14 2 password))"

definition quiz_generatePassword :: "word_source \<Rightarrow> string list \<Rightarrow> quiz_page \<Rightarrow> quiz_page" where
  "quiz_generatePassword rw input_values p =
     (if length input_values < 3 then p\<lparr>quiz_alerts := quiz_alerts p @ [''Please select at least 3 questions.'']\<rparr>
      else
        let (answers, alerts) = collect_answers input_values;
            p1 = p\<lparr>quiz_alerts := quiz_alerts p @ alerts\<rparr>
        in if length answers < 3 then p1
           else p1\<lparr>password_output := Some (quiz_password rw answers)\<rparr>)"

text \<open>Answers as \<open>collect_answer\<close> leaves them: two letters or more, capitalised.\<close>

definition quiz_word :: "string \<Rightarrow> bool" where
  "quiz_word a \<longleftrightarrow> 2 \<le> length a \<and> is_upper (hd a) \<and> is_lower (a ! 1)"

text \<open>
  The answers one round of \<open>collect_answer\<close> keeps, with two letters or more after
  \<open>trim()\<close>, and the word it keeps of them.
\<close>

definition quiz_valid :: "string \<Rightarrow> bool" where
  "quiz_valid v \<longleftrightarrow> 2 \<le> length (filter is_alpha (js_trim v))"

definition quiz_clean :: "string \<Rightarrow> string" where
  "quiz_clean v = capitalize (filter is_alpha (js_trim v))"

subsection \<open>Facts: collected answers\<close>

text \<open>The definitions a concrete run of the quiz page evaluates.\<close>

lemmas quiz_eval = quiz_generatePassword_def collect_answers_def collect_answer_def quiz_password_def
  secureRandomNumber_def quiz_symbols_def js_trim_def js_ws_def is_alpha_def is_upper_def is_lower_def
  js_to_upper_def js_to_lower_def js_upper_char_def js_lower_char_def dec_string_two_digits
  digit_char_def char_eval

lemma quiz_word_capitalize:
  assumes "\<forall>c\<in>set s. is_alpha c" "2 \<le> length s"
  shows "quiz_word (capitalize s)"
proof -
  obtain c d r where s: "s = c # d # r" using assms(2) by (cases s; cases "tl s") auto
  with assms(1) show ?thesis
    by (simp add: quiz_word_def js_to_lower_def is_alpha_upper_char is_alpha_lower_char)
qed

lemma collect_answer_words:
  "\<forall>a\<in>set (fst st). quiz_word a \<Longrightarrow> \<forall>a\<in>set (fst (collect_answer st v)). quiz_word a"
  by (auto simp: collect_answer_def Let_def split_def intro!: quiz_word_capitalize)

lemma foldl_collect_words:
  "\<forall>a\<in>set (fst st). quiz_word a \<Longrightarrow> \<forall>a\<in>set (fst (foldl collect_answer st vs)). quiz_word a"
proof (induction vs arbitrary: st)
  case (Cons v vs)
  then show ?case using collect_answer_words [of st v] by simp
qed simp

lemma collect_answers_words: "\<forall>a\<in>set (fst (collect_answers input_values)). quiz_word a"
  unfolding collect_answers_def by (rule foldl_collect_words) simp

lemma collect_answer_valid: "quiz_valid v \<Longrightarrow> collect_answer st v = (fst st @ [quiz_clean v], snd st)"
  by (auto simp: collect_answer_def quiz_valid_def quiz_clean_def Let_def split_def)

lemma collect_answer_invalid:
  "\<not> quiz_valid v \<Longrightarrow> collect_answer st v =
     ([], snd st @ [if js_trim v = [] then ''Please answer all selected questions.'' else ''Answers must contain at least 2 letters.''])"
  by (auto simp: collect_answer_def quiz_valid_def Let_def split_def)

lemma foldl_collect_valid:
  "list_all quiz_valid ys \<Longrightarrow> foldl collect_answer st ys = (fst st @ map quiz_clean ys, snd st)"
  by (induction ys arbitrary: st) (simp_all add: collect_answer_valid)

lemma quiz_symbols_special: "c \<in> set quiz_symbols \<Longrightarrow> is_special c"
  by (auto simp: quiz_symbols_def is_special_def SPECIAL_CHARS_def)

lemma join_with_hd: "join_with c (a # as) = a @ drop (length a) (join_with c (a # as))"
  by (cases as) simp_all

lemma quiz_word_classes: "quiz_word a \<Longrightarrow> has_upper a \<and> has_lower a"
proof -
  assume w: "quiz_word a"
  then obtain c d r where a: "a = c # d # r" by (cases a; cases "tl a") (auto simp: quiz_word_def)
  with w show ?thesis by (simp add: quiz_word_def)
qed

lemma join_with_classes:
  "has_upper a \<Longrightarrow> has_upper (join_with c (a # as))" "has_lower a \<Longrightarrow> has_lower (join_with c (a # as))"
  by (cases as; simp)+

lemma quiz_password_classes:
  assumes "answers \<noteq> []" "\<forall>a\<in>set answers. quiz_word a"
  shows "14 \<le> length (quiz_password rw answers) \<and> class_count (quiz_password rw answers) = 4"
proof -
  define sym where "sym = quiz_symbols ! secureRandomNumber rw 0 (length quiz_symbols)"
  define P where "P = join_with (CHR ''-'') answers @ [sym] @ dec_string (secureRandomNumber rw 1 90 + 10)"
  have pw: "quiz_password rw answers = fst (pad_digits (\<lambda>k. secureRandomNumber rw k 9) 14 2 P)"
    by (simp add: quiz_password_def P_def sym_def Let_def)
  obtain a as where aa: "answers = a # as" using assms(1) by (cases answers) auto
  with assms(2) have "has_upper a \<and> has_lower a" by (simp add: quiz_word_classes)
  then have "has_upper (join_with (CHR ''-'') answers)" "has_lower (join_with (CHR ''-'') answers)"
    unfolding aa using join_with_classes by blast+
  moreover have "secureRandomNumber rw 0 (length quiz_symbols) < length quiz_symbols"
    by (simp add: secureRandomNumber_def quiz_symbols_def)
  then have "is_special sym"
    unfolding sym_def using quiz_symbols_special nth_mem by blast
  ultimately have "has_upper P" "has_lower P" "has_special P" "has_digit P"
    by (simp_all add: P_def dec_string_has_digit)
  moreover obtain ds where "fst (pad_digits (\<lambda>k. secureRandomNumber rw k 9) 14 2 P) = P @ ds"
    using pad_digits_prefix by blast
  ultimately have "class_count (quiz_password rw answers) = 4"
    by (simp add: pw class_count_4)
  moreover have "14 \<le> length (quiz_password rw answers)"
    unfolding pw by (rule pad_digits_long)
  ultimately show ?thesis by simp
qed

subsection \<open>Facts: the quiz page\<close>

text \<open>
  C28 (quiz passwords): whenever the quiz page writes a password, it has at least fourteen
  characters and all four character classes: the first answer gives an upper-case and a
  lower-case letter, the symbol is special and the number gives a digit.
\<close>

theorem quiz_output_four_classes:
  "password_output (quiz_generatePassword rw input_values \<lparr>quiz_alerts = [], password_output = None\<rparr>) = Some pw \<Longrightarrow>
   14 \<le> length pw \<and> class_count pw = 4"
proof -
  assume out: "password_output (quiz_generatePassword rw input_values \<lparr>quiz_alerts = [], password_output = None\<rparr>) = Some pw"
  obtain answers alerts where c: "collect_answers input_values = (answers, alerts)" by fastforce
  with out have "3 \<le> length answers" "pw = quiz_password rw answers"
    by (auto simp: quiz_generatePassword_def Let_def split: if_splits)
  moreover have "\<forall>a\<in>set answers. quiz_word a" using collect_answers_words [of input_values] c by simp
  ultimately have "answers \<noteq> []" "\<forall>a\<in>set answers. quiz_word a" "pw = quiz_password rw answers" by auto
  then show ?thesis using quiz_password_classes [of answers rw] by simp
qed

theorem quiz_output_four_classes_witness:
  "password_output (quiz_generatePassword (\<lambda>k. 0) [''Rex'', ''Boston'', ''Toyota''] \<lparr>quiz_alerts = [], password_output = None\<rparr>)
     = Some ''Rex-Boston-Toyota!10'' \<and> class_count ''Rex-Boston-Toyota!10'' = 4"
proof -
  have h: "password_output (quiz_generatePassword (\<lambda>k. 0) [''Rex'', ''Boston'', ''Toyota''] \<lparr>quiz_alerts = [], password_output = None\<rparr>)
     = Some ''Rex-Boston-Toyota!10''"
    by (simp add: quiz_eval)
  show ?thesis using h quiz_output_four_classes [OF h] by simp
qed

text \<open>
  C29 (an alert does not stop the quiz): \<open>return\<close> inside \<open>forEach\<close> only ends one
  round, so an answer without two letters after any earlier answers raises its alert and
  empties the answers so far, and three or more valid answers after it still make a
  password, from those answers alone, shown together with every alert raised.
\<close>

theorem quiz_alert_then_password:
  assumes "\<not> quiz_valid x" "list_all quiz_valid ys" "3 \<le> length ys"
  shows "quiz_generatePassword rw (xs @ x # ys) p =
           p\<lparr>quiz_alerts := quiz_alerts p @ snd (collect_answers xs) @
                [if js_trim x = [] then ''Please answer all selected questions.'' else ''Answers must contain at least 2 letters.''],
             password_output := Some (quiz_password rw (map quiz_clean ys))\<rparr>"
proof -
  have "collect_answers (xs @ x # ys) =
          (map quiz_clean ys, snd (collect_answers xs) @
             [if js_trim x = [] then ''Please answer all selected questions.'' else ''Answers must contain at least 2 letters.''])"
    using assms(1,2) by (simp add: collect_answers_def collect_answer_invalid foldl_collect_valid)
  then show ?thesis using assms(3) by (simp add: quiz_generatePassword_def)
qed

theorem quiz_alert_then_password_witness:
  "quiz_generatePassword (\<lambda>k. 0) ([] @ ''1'' # [''Rex'', ''Boston'', ''Toyota'']) \<lparr>quiz_alerts = [], password_output = None\<rparr>
   = \<lparr>quiz_alerts = [''Answers must contain at least 2 letters.''], password_output = Some ''Rex-Boston-Toyota!10''\<rparr>"
proof -
  have v: "\<not> quiz_valid ''1''" "list_all quiz_valid [''Rex'', ''Boston'', ''Toyota'']"
    by (simp_all add: quiz_valid_def quiz_eval)
  have c: "map quiz_clean [''Rex'', ''Boston'', ''Toyota''] = [''Rex'', ''Boston'', ''Toyota'']"
    by (simp add: quiz_clean_def quiz_eval)
  have "quiz_password (\<lambda>k. 0) [''Rex'', ''Boston'', ''Toyota''] = ''Rex-Boston-Toyota!10''"
    by (simp add: quiz_eval)
  moreover have "js_trim ''1'' \<noteq> []" by (simp add: quiz_eval)
  ultimately show ?thesis
    using quiz_alert_then_password [OF v, of "\<lambda>k. 0" "[]" "\<lparr>quiz_alerts = [], password_output = None\<rparr>"] c
    by (simp add: collect_answers_def)
qed
end
