(* ===== verification/Spec2Isabelle.thy ===== *)
theory Spec2Isabelle
  imports Accounts SignupForm Auth RateLimit Quiz
begin

text \<open>
  \<^bold>\<open>A verification library for the MemPass password pages (IAN-JEFA/Password-Analyzer).\<close>

  \<^bold>\<open>The program.\<close> Four browser scripts. src/signup.js derives a password from two
  security answers (\<open>transformAnswer\<close>, \<open>generatePassword\<close>, \<open>ensureComplexity\<close>),
  scores it (\<open>updateStrengthIndicator\<close>) and, on submit, stores the account in
  \<open>localStorage\<close>. src/auth.js is a utility class: a compliance check with its own
  strength tiers (\<open>validatePassword\<close>, \<open>getPasswordStrength\<close>), an entropy estimate
  (\<open>calculateEntropy\<close>, \<open>getCharsetSize\<close>, \<open>checkPasswordStrength\<close>), input
  sanitising and hints, identifiers, a session in \<open>sessionStorage\<close> and a login rate
  limiter keyed by identifier in \<open>localStorage\<close>. src/login.js checks a login against the
  stored account and remembers the email for thirty days. src/js/script.js is a second
  generator (a quiz page) that joins three cleaned answers. The scripts share no state
  but the browser storages, and no page calls auth.js; randomness is \<open>Math.random()\<close>
  (signup) or \<open>crypto.getRandomValues\<close> (quiz).

  \<^bold>\<open>Layout.\<close>
  \<^item> \<open>Prelude\<close>: the JavaScript runtime the scripts call, as HOL functions:
    \<open>String(n)\<close> (\<open>dec_string\<close>, with its inverse \<open>dec_value\<close>), \<open>substring\<close>
    with its index clamping (\<open>js_substring\<close>), \<open>charAt\<close>, \<open>substr\<close>,
    \<open>split\<close>/\<open>join\<close> (\<open>split_on\<close>, \<open>join_with\<close>), \<open>trim\<close> (\<open>js_trim\<close> over
    the 8-bit white-space characters, no-break space included), ASCII case mapping,
    \<open>charAt(0).toUpperCase() + slice(1).toLowerCase()\<close> (\<open>capitalize\<close>), array indexing
    past the end (\<open>js_index_str\<close> gives ''undefined''), and the digit-padding \<open>while\<close>
    loop both generators use (\<open>pad_digits\<close>, a \<open>function\<close> whose termination measure is
    the missing length; \<open>pad_loop\<close> is the same loop as \<open>while_option\<close>, shown to
    return with the digits it draws). The random source of signup.js is a parameter \<open>rng\<close>:
    \<open>rng i m\<close> is \<open>Math.floor(Math.random() * m)\<close> at the \<open>i\<close>-th call;
    \<open>rng_ok\<close> says it is below \<open>m\<close>, which is all the code relies on.
  \<^item> \<open>CharClasses\<close>: the regular-expression classes the code tests
    (\<open>/[A-Z]/\<close>, \<open>/[a-z]/\<close>, \<open>/\d/\<close>, the special class, \<open>/[^a-zA-Z0-9]/\<close>,
    \<open>/[a-zA-Z]/\<close>) as \<open>has_upper\<close> and its kin, with their disjointness and their
    behaviour on concatenations and under case mapping.
  \<^item> \<open>Transform\<close>: signup.js's question catalogue (\<open>questions\<close>,
    \<open>getRemainingQuestions\<close>) and \<open>transformAnswer\<close> = \<open>leet\<close> after
    \<open>transform_case\<close>; \<open>replace_ci\<close> is one \<open>replace(/p/gi, r)\<close>, \<open>leet_rules\<close> the
    five of them in the source's order. References: \<open>leet_char\<close> (one character table),
    \<open>rule_table\<close> (the lookup any order of the rules amounts to) and \<open>cap_words\<close>
    (word capitalisation in one pass).
  \<^item> \<open>Signup\<close>: signup.js's generator. \<open>ensureComplexity\<close> is the composition of its
    four \<open>if\<close> blocks \<open>fix_upper\<close>, \<open>fix_lower\<close>, \<open>fix_digit\<close>,
    \<open>fix_special\<close>; \<open>base_password\<close> and \<open>derive_password\<close> are the body of
    \<open>generatePassword\<close>, which runs on the page state \<open>signup_page\<close> (the globals
    \<open>currentPassword\<close> and \<open>userAnswers\<close> and what the handler writes to the
    document) after \<open>validateAnswers\<close>; \<open>updateStrengthIndicator\<close> is the score.
  \<^item> \<open>SignupForm\<close>: the signup page as the user drives it: the select handlers
    \<open>updateQuestionInputs\<close> and \<open>addSecondQuestion\<close> with their HTML templates,
    \<open>copyPassword\<close>, and \<open>signup_event\<close>/\<open>signup_event_step\<close> for selecting,
    typing (which runs \<open>validateAnswers\<close>), generating and copying, on the document
    \<open>signup_dom\<close> and the page state; \<open>form_wf\<close> and \<open>page_wf\<close> are the
    well-formedness the handlers maintain.
  \<^item> \<open>Auth\<close>: auth.js's \<open>validatePassword\<close> with its requirements record and
    \<open>getPasswordStrength\<close>, and the entropy scorer (\<open>getCharsetSize\<close>,
    \<open>calculateEntropy\<close> over the reals, \<open>checkPasswordStrength\<close>); \<open>entropy_tier\<close>
    is the same tiering on natural numbers, without logarithms.
  \<^item> \<open>RateLimit\<close>: \<open>checkRateLimit\<close> as a function of the identifier, the clock and
    the map of \<open>rate_limit_\<close> records; \<open>run_calls\<close> is a sequence of calls,
    \<open>rate_step\<close>/\<open>rate_reachable\<close> an inductive step relation from empty storage, and
    \<open>window_decisions\<close> the abstract counter of one window.
  \<^item> \<open>AuthSession\<close>: \<open>sanitizeInput\<close>, \<open>generateHint\<close>, \<open>generateId\<close>, and \<open>setSession\<close>, \<open>getSession\<close>,
    \<open>clearSession\<close> on \<open>session_storage\<close>, a record with one field per
    \<open>sessionStorage\<close> key the pages use.
  \<^item> \<open>Accounts\<close>: the account record, \<open>localStorage\<close> as a map to the values the pages
    store (\<open>ls_value\<close>), signup.js's submit handler \<open>signup_submit\<close>, login.js's
    \<open>login_submit\<close> and \<open>restore_login\<close>, \<open>showPasswordHint\<close>; what
    \<open>JSON.parse\<close> gives them is \<open>parse_user\<close> (\<open>json_read\<close>, \<open>json_user\<close>); \<open>page_op\<close> and \<open>page_step\<close> name the
    page events (generate, submit signup, submit login, load login) on the \<open>browser\<close>
    state, and \<open>run_ops\<close> runs a sequence of them.
  \<^item> \<open>Quiz\<close>: script.js's \<open>generatePassword\<close> (\<open>quiz_generatePassword\<close>): the
    \<open>forEach\<close> over the answers as a left fold of \<open>collect_answer\<close>, and
    \<open>secureRandomNumber\<close> over a source of \<open>32 word\<close>s, read with \<open>unat\<close>.

  \<^bold>\<open>What is proved.\<close> The signup password has at least twelve characters and at least
  three character classes for every input, and all four when the extra characters do not
  end in an upper-case letter; \<open>ensureComplexity\<close> loses the upper-case letter exactly
  when the input's only upper-case letter is its last character and it has no lower-case
  letter (the lower-case fix overwrites it), or the input is one character without an
  upper-case letter; it is the identity on compliant strings. \<open>generatePassword\<close> only
  raises an alert when the answers are missing and otherwise stores the derived password.
  \<open>transformAnswer\<close> leaves no \<open>a, s, i, o, e\<close>, and its five replacements, in
  any order, are the one-character table \<open>leet_char\<close>. \<open>validatePassword\<close> is valid
  exactly with eight characters and two classes; the entropy is the length times
  \<open>log2\<close> of the charset, between \<open>log2 10\<close> and \<open>log2 94\<close> bits a character,
  and its tiers agree with the natural-number thresholds; every signup password is strong
  for auth.js, whatever the signup page calls strong auth.js calls strong, and the scales
  disagree exactly on passwords of twelve characters or more with three classes. The rate
  limiter refines the window counter for a fresh identifier, keeps every stored counter
  between 1 and 5 (rule induction), leaves other identifiers alone, restarts a window only
  when the first attempt is more than fifteen minutes old (a fixed window: ten attempts a
  millisecond apart across the reset are allowed), and always allows an identifier again.
  \<open>sanitizeInput\<close> results are safe, bounded, not led by white space, empty for a
  non-string, and end in white space exactly when the cut to 100 falls after a white-space
  character; hints keep the first and last character; a session reads back until exactly
  24 hours and reading it keeps the storage consistent. Across the pages: an account logs in
  with its generated password unless its email is \<open>user\<close>, in which case the password
  text replaces the account and a login succeeds only through what \<open>JSON.parse\<close> makes
  of that text; a failed login changes nothing; the stored password copy agrees with the
  account along every run of page events without the email \<open>remember\<close>; remember-me
  prefills until its expiry. The quiz password has fourteen characters and four classes,
  and an alert inside its \<open>forEach\<close> does not stop it: the valid answers after it still
  make the password. The padding loop, as \<open>while_option\<close>, returns with exactly the
  digits drawn; every run of signup page events keeps the form and page well formed.

  \<^bold>\<open>Bounds and fuel.\<close> No fuel: every loop of the code is a \<open>fun\<close>, a fold or a
  \<open>function\<close> with a termination proof (the padding loop appends a non-empty decimal
  string per round). The padding bounds (12 for signup, 14 for the quiz) are parameters of
  \<open>pad_digits\<close>. The quiz's draws are 32-bit words, so \<open>array[0] % max\<close> is
  \<open>unat w mod max\<close> with \<open>unat w < 2^32\<close>.

  \<^bold>\<open>Modelling choices.\<close> Strings are lists of 8-bit characters; the case mappings and
  regex classes are those of ASCII, where the code's regexes live (non-ASCII letters,
  which JavaScript maps and may lengthen, are outside the model). JSON serialisation of
  the stored account, and ISO date strings, are taken as faithful round trips (dates in
  milliseconds). \<open>JSON.parse\<close> of a plain stored string and \<open>new Date\<close> of one are
  parameters (\<open>json\<close>, \<open>date\<close>) of the handlers that call them, so every claim about
  login holds whatever that string parses to; a parsed value is reduced to the fields the
  handlers read (a string, or another value with its \<open>String()\<close> text), and a
  \<open>SyntaxError\<close> or \<open>null\<close> stops the handler (\<open>Unreadable\<close>, \<open>HintError\<close>).
  The date thirty calendar days ahead and the base-36 text of \<open>Math.random()\<close> are
  parameters; \<open>Math.pow\<close> in \<open>calculateEntropy\<close> is exact (the code's overflow to
  \<open>Infinity\<close> beyond about 156 characters is not modelled), and \<open>generateId\<close> writes
  a negative clock as \<open>0\<close>. The DOM is modelled only as the fields a handler writes.

  \<^bold>\<open>Not modelled.\<close> \<open>showAlert\<close>'s timers, clipboard access, page redirects and
  the white space inside the HTML templates, and the options of the first question select,
  which are in signup.html, not among the sources (they enter as a parameter); the statistical
  bias of \<open>% max\<close> on uniform words is stated as a finding, not proved.
\<close>

subsection \<open>Properties across the pages\<close>

text \<open>
  C11 (the signup password satisfies auth.js): every password the signup page derives
  passes \<open>AuthUtils.validatePassword\<close>, is strong for its compliance tiers and strong
  for its entropy tiers.
\<close>

theorem signup_password_auth_strong:
  assumes "rng_ok rng"
  shows "isValid (validatePassword (derive_password rng year extra u1 u2)) \<and>
         strength (validatePassword (derive_password rng year extra u1 u2)) = Strong \<and>
         entropy_tier (derive_password rng year extra u1 u2) = Strong"
proof -
  let ?pw = "derive_password rng year extra u1 u2"
  have c: "12 \<le> length ?pw" "has_lower ?pw" "has_digit ?pw" "has_special ?pw"
    using derive_password_classes [OF assms] by blast+
  then have cc: "3 \<le> class_count ?pw" by (simp add: class_count_ge3)
  have "68 \<le> getCharsetSize ?pw" using c charset_three_classes by blast
  then have "(68::nat) ^ 12 \<le> getCharsetSize ?pw ^ length ?pw"
    using c(1) by (meson le_trans one_le_numeral power_increasing power_mono zero_le_numeral)
  moreover have "(2::nat) ^ 60 \<le> 68 ^ 12" by simp
  ultimately have "\<not> getCharsetSize ?pw ^ length ?pw < 2 ^ 60" by linarith
  then have "entropy_tier ?pw = Strong" by (simp add: entropy_tier_def Let_def)
  with c cc show ?thesis
    by (simp add: validatePassword_closed_form)
qed

theorem signup_password_auth_strong_witness:
  "rng_ok (\<lambda>i m. 0) \<and>
   strength (validatePassword (derive_password (\<lambda>i m. 0) 2025 '''' \<lparr>answer_text = ''Rex'', answer_type = ''pet''\<rparr>
                                  \<lparr>answer_text = ''Boston'', answer_type = ''city''\<rparr>)) = Strong"
  using signup_password_auth_strong [OF rng_ok_const0] by blast

text \<open>
  C12 (the two strength scales): whatever the signup indicator calls strong,
  \<open>getPasswordStrength\<close> calls strong too.
\<close>

theorem signup_strong_implies_auth_strong:
  "updateStrengthIndicator pw = Strong \<Longrightarrow> strength (validatePassword pw) = Strong"
proof -
  assume "updateStrengthIndicator pw = Strong"
  then have "6 \<le> length_points pw + class_count pw"
    by (simp add: updateStrengthIndicator_def strength_score_def Let_def split: if_splits)
  moreover have "class_count pw \<le> 4" by (simp add: class_count_def)
  ultimately have "12 \<le> length pw" "3 \<le> class_count pw"
    by (auto simp: length_points_def split: if_splits)
  then show ?thesis by (simp add: validatePassword_closed_form)
qed

theorem signup_strong_implies_auth_strong_witness:
  "updateStrengthIndicator ''R3x@B0$t0n25'' = Strong \<and> strength (validatePassword ''R3x@B0$t0n25'') = Strong"
proof -
  have h: "updateStrengthIndicator ''R3x@B0$t0n25'' = Strong"
    by (simp add: updateStrengthIndicator_def strength_score_def length_points_def class_count_def
         has_class_defs is_upper_def is_lower_def is_digit_def is_special_def SPECIAL_CHARS_def)
  show ?thesis using h signup_strong_implies_auth_strong [OF h] by blast
qed

text \<open>
  C13 (but not conversely): \<open>validatePassword\<close> rates a password strong while the signup page shows it as fair exactly when it has at least twelve characters and exactly three of the four classes; every other password auth.js calls strong the signup page calls strong too.
\<close>

theorem strength_tiers_disagree:
  "(strength (validatePassword pw) = Strong \<and> updateStrengthIndicator pw = Fair) \<longleftrightarrow>
   12 \<le> length pw \<and> class_count pw = 3"
proof -
  have "class_count pw \<le> 4" by (simp add: class_count_def)
  then show ?thesis
    by (auto simp: validatePassword_strength updateStrengthIndicator_def strength_score_def length_points_def Let_def)
qed
end
